theory Spec2Isabelle
  imports Main "HOL-Library.Sublist" "HOL-Library.AList"
begin

section \<open>Strings\<close>

text \<open>
  A JavaScript string is modelled as a \<^typ>\<open>string\<close>.  Case conversion is the one on the
  ASCII letters; the other characters are left alone (the case mappings of Unicode beyond
  ASCII are not modelled).
\<close>

definition toUpperChar :: "char \<Rightarrow> char" where
  "toUpperChar c =
     (case map_of (zip ''abcdefghijklmnopqrstuvwxyz'' ''ABCDEFGHIJKLMNOPQRSTUVWXYZ'') c of
        Some u \<Rightarrow> u
      | None \<Rightarrow> c)"

definition toLowerChar :: "char \<Rightarrow> char" where
  "toLowerChar c =
     (case map_of (zip ''ABCDEFGHIJKLMNOPQRSTUVWXYZ'' ''abcdefghijklmnopqrstuvwxyz'') c of
        Some l \<Rightarrow> l
      | None \<Rightarrow> c)"

definition toUpperCase :: "string \<Rightarrow> string" where
  "toUpperCase s = map toUpperChar s"

definition toLowerCase :: "string \<Rightarrow> string" where
  "toLowerCase s = map toLowerChar s"

text \<open>\<^verbatim>\<open>s.endsWith(t)\<close>.\<close>

definition endsWith :: "string \<Rightarrow> string \<Rightarrow> bool" where
  "endsWith s t = suffix t s"

text \<open>
  \<^verbatim>\<open>s.replace(pat, "")\<close> with a string pattern: the first occurrence of \<open>pat\<close> is
  removed, and a string without an occurrence is returned as it is.
\<close>

fun replaceFirst :: "string \<Rightarrow> string \<Rightarrow> string" where
  "replaceFirst pat [] = []"
| "replaceFirst pat (c # cs) =
     (if prefix pat (c # cs) then drop (length pat) (c # cs) else c # replaceFirst pat cs)"

text \<open>
  \<^verbatim>\<open>s.split(re)\<close> for a regular expression that matches one character of a class: the
  pieces between the separators, empty pieces included; the empty string gives one empty piece.
\<close>

fun splitOn :: "(char \<Rightarrow> bool) \<Rightarrow> string \<Rightarrow> string list" where
  "splitOn P [] = [[]]"
| "splitOn P (c # cs) =
     (if P c then [] # splitOn P cs
      else (case splitOn P cs of [] \<Rightarrow> [[c]] | w # ws \<Rightarrow> (c # w) # ws))"

text \<open>\<^verbatim>\<open>parts.join(sep)\<close>.\<close>

fun joinWith :: "string \<Rightarrow> string list \<Rightarrow> string" where
  "joinWith sep [] = []"
| "joinWith sep [w] = w"
| "joinWith sep (w # v # ws) = w @ sep @ joinWith sep (v # ws)"

section \<open>Paths (\<^verbatim>\<open>node:path\<close>, POSIX flavour)\<close>

definition isSep :: "char \<Rightarrow> bool" where
  "isSep c = (c = CHR ''/'')"

text \<open>\<^verbatim>\<open>basename(path)\<close>: trailing slashes are skipped, then the last segment is taken.\<close>

definition basename :: "string \<Rightarrow> string" where
  "basename p = rev (takeWhile (\<lambda>c. \<not> isSep c) (dropWhile isSep (rev p)))"

text \<open>
  The segment normaliser of \<^verbatim>\<open>node:path\<close>: empty segments and \<^verbatim>\<open>.\<close> are dropped,
  \<^verbatim>\<open>..\<close> removes the segment before it; above the start it is kept only when
  \<open>allowAboveRoot\<close> holds. The accumulator holds the segments kept so far, last first.
\<close>

fun normalizeString :: "bool \<Rightarrow> string list \<Rightarrow> string list \<Rightarrow> string list" where
  "normalizeString allowAboveRoot acc [] = rev acc"
| "normalizeString allowAboveRoot acc (s # ss) =
     (if s = [] \<or> s = ''.'' then normalizeString allowAboveRoot acc ss
      else if s = ''..'' then
        (case acc of
           [] \<Rightarrow> normalizeString allowAboveRoot (if allowAboveRoot then [''..''] else []) ss
         | a # as \<Rightarrow>
             if a = ''..''
             then normalizeString allowAboveRoot (if allowAboveRoot then ''..'' # acc else acc) ss
             else normalizeString allowAboveRoot as ss)
      else normalizeString allowAboveRoot (s # acc) ss)"

definition normalize_path :: "string \<Rightarrow> string" where
  "normalize_path p =
     (if p = [] then ''.''
      else
        let isAbsolute = isSep (hd p);
            trailingSeparator = isSep (last p);
            q = joinWith ''/'' (normalizeString (\<not> isAbsolute) [] (splitOn isSep p))
        in if q = [] then (if isAbsolute then ''/'' else if trailingSeparator then ''./'' else ''.'')
           else (if isAbsolute then ''/'' else []) @ q @ (if trailingSeparator then ''/'' else []))"

text \<open>\<^verbatim>\<open>join(a, b)\<close>: the non-empty arguments joined by a slash, then normalised.\<close>

definition join :: "string \<Rightarrow> string \<Rightarrow> string" where
  "join a b =
     (let joined = (if a = [] then b else if b = [] then a else a @ ''/'' @ b)
      in if joined = [] then ''.'' else normalize_path joined)"

text \<open>
  \<^verbatim>\<open>resolve(p)\<close> reads the working directory of the process, which is the explicit
  argument \<open>cwd\<close> here (an absolute path). The result is the list of the segments of
  the absolute path.
\<close>

definition resolve :: "string \<Rightarrow> string \<Rightarrow> string list" where
  "resolve cwd p =
     normalizeString False []
       (splitOn isSep (if p \<noteq> [] \<and> isSep (hd p) then p else cwd @ ''/'' @ p))"

text \<open>
  \<^verbatim>\<open>relative(from, to)\<close>: both paths are resolved, their common leading segments are
  dropped, one \<^verbatim>\<open>..\<close> stands for every segment left of \<open>from\<close>, and the segments left
  of \<open>to\<close> follow.
\<close>

definition relative :: "string \<Rightarrow> string \<Rightarrow> string \<Rightarrow> string" where
  "relative cwd from to =
     (let f = resolve cwd from;
          t = resolve cwd to;
          n = length (longest_common_prefix f t)
      in joinWith ''/'' (replicate (length f - n) ''..'' @ drop n t))"

section \<open>Naming resolver (\<^verbatim>\<open>metadata.ts\<close>)\<close>

text \<open>
  \<^verbatim>\<open>fileName.replace(/\.page\.(tsx|ts)$/, "")\<close>: the pattern is anchored at the end of the
  string, so the only possible matches are the two endings.
\<close>

definition stripPageExt :: "string \<Rightarrow> string" where
  "stripPageExt fileName =
     (if endsWith fileName ''.page.tsx'' then take (length fileName - 9) fileName
      else if endsWith fileName ''.page.ts'' then take (length fileName - 8) fileName
      else fileName)"

text \<open>\<^verbatim>\<open>word.charAt(0).toUpperCase() + word.slice(1).toLowerCase()\<close>.\<close>

definition capitalize :: "string \<Rightarrow> string" where
  "capitalize word = toUpperCase (take 1 word) @ toLowerCase (drop 1 word)"

definition isWordSep :: "char \<Rightarrow> bool" where
  "isWordSep c = (c = CHR ''.'' \<or> c = CHR ''-'' \<or> c = CHR ''_'')"

definition extractComponentName :: "string \<Rightarrow> string" where
  "extractComponentName filePath =
     (let fileName = basename filePath;
          baseName = stripPageExt fileName
      in concat (map capitalize (splitOn isWordSep baseName)) @ ''Page'')"

definition toScriptFileName :: "string \<Rightarrow> string \<Rightarrow> string" where
  "toScriptFileName filePath sfx =
     (let fileName = basename filePath;
          name = replaceFirst sfx fileName
      in name @ ''page.js'')"

definition toScriptPath :: "string \<Rightarrow> string \<Rightarrow> string \<Rightarrow> string \<Rightarrow> string" where
  "toScriptPath cwd outputDir originalPath sfx =
     (let relativePath = relative cwd ''.'' originalPath;
          pathWithoutExt = replaceFirst sfx relativePath
      in outputDir @ ''/'' @ pathWithoutExt @ ''page.js'')"

section \<open>Build invoker (\<^verbatim>\<open>index.ts\<close>)\<close>

definition toOutFile :: "string \<Rightarrow> string \<Rightarrow> string \<Rightarrow> string" where
  "toOutFile dir path sfx =
     (let fileName = basename path;
          name = replaceFirst sfx fileName
      in dir @ ''/'' @ name @ ''page.js'')"

text \<open>
  The request handed to \<^verbatim>\<open>esbuild.build\<close>: the entry program is the fixed hydration
  template with the import path filled in (only the import path is kept here), the other
  options are constants, and \<open>outfile\<close> is where the bundle is written.
\<close>

record esbuild_request =
  importPath :: string
  outfile :: string

text \<open>
  \<^verbatim>\<open>_build(targetDir, targetFileSuffix, path)\<close>, up to the call of the bundler. The import
  path is the path relative to the project root, with every backslash turned into a slash.
\<close>

definition buildOne :: "string \<Rightarrow> string \<Rightarrow> string \<Rightarrow> string \<Rightarrow> esbuild_request" where
  "buildOne cwd targetDir targetFileSuffix path =
     \<lparr> importPath =
         ''./'' @ map (\<lambda>c. if c = CHR 0x5C then CHR ''/'' else c) (relative cwd ''.'' path),
       outfile = toOutFile targetDir path targetFileSuffix \<rparr>"

section \<open>Metadata registry (\<^verbatim>\<open>types.ts\<close>, \<^verbatim>\<open>metadata.ts\<close>)\<close>

record entry =
  scriptFileName :: string
  originalPath :: string
  outputPath :: string

text \<open>
  \<^verbatim>\<open>ComponentMetadata\<close> is an object used as a dictionary: its own properties in
  insertion order, every key once.
\<close>

type_synonym ComponentMetadata = "(string \<times> entry) list"

text \<open>
  Reading \<^verbatim>\<open>metadata[componentName]\<close>: an own property wins; otherwise the property is
  looked up on \<^verbatim>\<open>Object.prototype\<close>, whose properties are functions (truthy, and without a
  \<^verbatim>\<open>scriptFileName\<close>); otherwise the result is \<^verbatim>\<open>undefined\<close>.
\<close>

definition objectPrototypeKeys :: "string list" where
  "objectPrototypeKeys =
     [''constructor'', ''__proto__'', ''hasOwnProperty'', ''isPrototypeOf'',
      ''propertyIsEnumerable'', ''toLocaleString'', ''toString'', ''valueOf'',
      ''__defineGetter__'', ''__defineSetter__'', ''__lookupGetter__'', ''__lookupSetter__'']"

datatype property = Own entry | Inherited | Undefined

definition getProperty :: "ComponentMetadata \<Rightarrow> string \<Rightarrow> property" where
  "getProperty metadata componentName =
     (case map_of metadata componentName of
        Some e \<Rightarrow> Own e
      | None \<Rightarrow> if componentName \<in> set objectPrototypeKeys then Inherited else Undefined)"

definition truthy :: "property \<Rightarrow> bool" where
  "truthy v = (v \<noteq> Undefined)"

datatype error = IOError string | BuildError string | MetadataNotFound string | TypeError string

subsection \<open>\<^verbatim>\<open>JSON.stringify(metadata, null, 2)\<close>\<close>

text \<open>
  The characters of a string are 8-bit code units here. A quoted string escapes the double
  quote, the backslash and the control characters below \<^verbatim>\<open>0x20\<close> (five of them by a
  letter, the others as \<^verbatim>\<open>\u00XX\<close> in lower-case hexadecimal).
\<close>

definition hexDigit :: "nat \<Rightarrow> char" where
  "hexDigit n = ''0123456789abcdef'' ! (n mod 16)"

definition escapeChar :: "char \<Rightarrow> string" where
  "escapeChar c =
     (if c = CHR 0x22 then [CHR 0x5C, CHR 0x22]
      else if c = CHR 0x5C then [CHR 0x5C, CHR 0x5C]
      else if c = CHR 0x08 then [CHR 0x5C, CHR ''b'']
      else if c = CHR 0x0C then [CHR 0x5C, CHR ''f'']
      else if c = CHR 0x0A then [CHR 0x5C, CHR ''n'']
      else if c = CHR 0x0D then [CHR 0x5C, CHR ''r'']
      else if c = CHR 0x09 then [CHR 0x5C, CHR ''t'']
      else if (of_char c :: nat) < 32
        then [CHR 0x5C, CHR ''u'', CHR ''0'', CHR ''0'',
              hexDigit ((of_char c :: nat) div 16), hexDigit ((of_char c :: nat) mod 16)]
      else [c])"

definition quoteJSONString :: "string \<Rightarrow> string" where
  "quoteJSONString s = CHR 0x22 # concat (map escapeChar s) @ [CHR 0x22]"

definition stringifyEntry :: "string \<times> entry \<Rightarrow> string" where
  "stringifyEntry ke =
     ''  '' @ quoteJSONString (fst ke) @ '': {'' @ [CHR 0x0A] @
     ''    '' @ quoteJSONString ''scriptFileName'' @ '': '' @
        quoteJSONString (scriptFileName (snd ke)) @ '','' @ [CHR 0x0A] @
     ''    '' @ quoteJSONString ''originalPath'' @ '': '' @
        quoteJSONString (originalPath (snd ke)) @ '','' @ [CHR 0x0A] @
     ''    '' @ quoteJSONString ''outputPath'' @ '': '' @
        quoteJSONString (outputPath (snd ke)) @ [CHR 0x0A] @
     ''  }''"

definition JSON_stringify :: "ComponentMetadata \<Rightarrow> string" where
  "JSON_stringify metadata =
     (if metadata = [] then ''{}''
      else ''{'' @ [CHR 0x0A] @ joinWith ('','' @ [CHR 0x0A]) (map stringifyEntry metadata) @
           [CHR 0x0A] @ ''}'')"

subsection \<open>The values of \<^verbatim>\<open>JSON.parse\<close>\<close>

text \<open>
  What \<^verbatim>\<open>JSON.parse\<close> returns is any JSON value, whatever type the caller declares for
  it. A string of such a value is the list of its UTF-16 code units (an escape
  \<^verbatim>\<open>\uXXXX\<close> gives any of them); \<open>units\<close> embeds the 8-bit strings. A number
  \<open>JNumber m e\<close> is the decimal \<open>m\<close> times ten to the power \<open>e\<close> that the text
  denotes, which the runtime rounds to a double. An object is the list of its own
  properties in the order in which the text introduces them, every key once.
\<close>

type_synonym jsstring = "nat list"

definition units :: "string \<Rightarrow> jsstring" where
  "units s = map of_char s"

datatype jsvalue =
    JNull
  | JBool bool
  | JNumber int int
  | JString jsstring
  | JArray "jsvalue list"
  | JObject "(jsstring \<times> jsvalue) list"

text \<open>
  The registry that the build process holds in memory is built by its own code, so every
  value in it is an entry; \<open>metadataValue\<close> is that registry as the value it is. The
  value that \<^verbatim>\<open>loadMetadata\<close> returns is whatever the metadata file holds.
\<close>

definition entryValue :: "entry \<Rightarrow> jsvalue" where
  "entryValue e =
     JObject [(units ''scriptFileName'', JString (units (scriptFileName e))),
              (units ''originalPath'', JString (units (originalPath e))),
              (units ''outputPath'', JString (units (outputPath e)))]"

definition metadataValue :: "ComponentMetadata \<Rightarrow> jsvalue" where
  "metadataValue metadata = JObject (map (\<lambda>ke. (units (fst ke), entryValue (snd ke))) metadata)"

subsection \<open>\<^verbatim>\<open>JSON.parse\<close>\<close>

text \<open>
  The parser reads every JSON text: white space, the six punctuation marks, string
  literals with their escapes, numbers, and the literals \<^verbatim>\<open>true\<close>, \<^verbatim>\<open>false\<close> and
  \<^verbatim>\<open>null\<close>. A text that is not JSON gives \<open>None\<close>, the \<^verbatim>\<open>SyntaxError\<close> of
  \<^verbatim>\<open>JSON.parse\<close>.
\<close>

datatype token =
    LBrace | RBrace | LBracket | RBracket | Colon | Comma
  | Str jsstring
  | Prim jsvalue

definition punctuation :: "char \<Rightarrow> token option" where
  "punctuation c =
     map_of [(CHR ''{'', LBrace), (CHR ''}'', RBrace), (CHR ''['', LBracket),
             (CHR '']'', RBracket), (CHR '':'', Colon), (CHR '','', Comma)] c"

definition hexVal :: "char \<Rightarrow> nat option" where
  "hexVal c =
     map_of (zip ''0123456789abcdefABCDEF''
                 [0, 1, 2, 3, 4, 5, 6, 7, 8, 9, 10, 11, 12, 13, 14, 15, 10, 11, 12, 13, 14, 15]) c"

definition hex4 :: "char \<Rightarrow> char \<Rightarrow> char \<Rightarrow> char \<Rightarrow> nat option" where
  "hex4 a b c d =
     (case (hexVal a, hexVal b, hexVal c, hexVal d) of
        (Some w, Some x, Some y, Some z) \<Rightarrow> Some (((w * 16 + x) * 16 + y) * 16 + z)
      | _ \<Rightarrow> None)"

definition unescape :: "char \<Rightarrow> nat option" where
  "unescape e =
     (if e = CHR 0x22 then Some 0x22
      else if e = CHR 0x5C then Some 0x5C
      else if e = CHR ''/'' then Some 0x2F
      else if e = CHR ''b'' then Some 0x08
      else if e = CHR ''f'' then Some 0x0C
      else if e = CHR ''n'' then Some 0x0A
      else if e = CHR ''r'' then Some 0x0D
      else if e = CHR ''t'' then Some 0x09
      else None)"

definition isWhitespace :: "char \<Rightarrow> bool" where
  "isWhitespace c = (c = CHR '' '' \<or> c = CHR 0x09 \<or> c = CHR 0x0A \<or> c = CHR 0x0D)"

definition isDigit :: "char \<Rightarrow> bool" where
  "isDigit c = (c \<in> set ''0123456789'')"

definition decimal :: "string \<Rightarrow> nat" where
  "decimal ds = foldl (\<lambda>n d. 10 * n + (of_char d - 48)) 0 ds"

text \<open>
  A number: an optional minus sign, the integer part (\<^verbatim>\<open>0\<close>, or digits that do not start
  with \<^verbatim>\<open>0\<close>), an optional fraction (a dot and digits) and an optional exponent (\<^verbatim>\<open>e\<close>
  or \<^verbatim>\<open>E\<close>, an optional sign, digits).
\<close>

definition fractionPart :: "string \<Rightarrow> (string \<times> string) option" where
  "fractionPart r =
     (if r \<noteq> [] \<and> hd r = CHR ''.''
      then (if takeWhile isDigit (tl r) = [] then None
            else Some (takeWhile isDigit (tl r), dropWhile isDigit (tl r)))
      else Some ([], r))"

definition exponentPart :: "string \<Rightarrow> int option" where
  "exponentPart r =
     (if r = [] then Some 0
      else if hd r = CHR ''e'' \<or> hd r = CHR ''E'' then
        (let signed = (tl r \<noteq> [] \<and> (hd (tl r) = CHR ''-'' \<or> hd (tl r) = CHR ''+''));
             ds = (if signed then tl (tl r) else tl r)
         in if ds = [] \<or> \<not> list_all isDigit ds then None
            else if signed \<and> hd (tl r) = CHR ''-'' then Some (- int (decimal ds))
            else Some (int (decimal ds)))
      else None)"

definition numberValue :: "string \<Rightarrow> jsvalue option" where
  "numberValue s =
     (let negative = (s \<noteq> [] \<and> hd s = CHR ''-'');
          r = (if negative then tl s else s);
          ip = takeWhile isDigit r
      in if ip = [] \<or> (hd ip = CHR ''0'' \<and> tl ip \<noteq> []) then None
         else
           case fractionPart (dropWhile isDigit r) of
             None \<Rightarrow> None
           | Some (fp, r') \<Rightarrow>
               (case exponentPart r' of
                  None \<Rightarrow> None
                | Some ex \<Rightarrow>
                    Some (JNumber ((if negative then - 1 else 1) * int (decimal (ip @ fp)))
                            (ex - int (length fp)))))"

definition isNumberChar :: "char \<Rightarrow> bool" where
  "isNumberChar c = (isDigit c \<or> c \<in> set ''+-.eE'')"

text \<open>
  The scanner. Between two tokens it is in the mode \<open>Between\<close>; inside a string literal
  the mode holds the code units read so far, inside a number the characters read so far,
  both last first. The tokens are collected last first. A number ends at white space, at a
  punctuation mark or at the end of the text.
\<close>

datatype mode = Between | InString jsstring | InNumber string

fun scan :: "mode \<Rightarrow> token list \<Rightarrow> string \<Rightarrow> token list option" where
  "scan Between toks [] = Some (rev toks)"
| "scan (InString acc) toks [] = None"
| "scan (InNumber acc) toks [] =
     (case numberValue (rev acc) of
        None \<Rightarrow> None
      | Some v \<Rightarrow> Some (rev (Prim v # toks)))"
| "scan Between toks (c # cs) =
     (if isWhitespace c then scan Between toks cs
      else if punctuation c \<noteq> None then scan Between (the (punctuation c) # toks) cs
      else if c = CHR 0x22 then scan (InString []) toks cs
      else if c = CHR ''-'' \<or> isDigit c then scan (InNumber [c]) toks cs
      else if c = CHR ''t'' then
        (case cs of
           r # u # e # cs' \<Rightarrow>
             if [r, u, e] = ''rue'' then scan Between (Prim (JBool True) # toks) cs' else None
         | _ \<Rightarrow> None)
      else if c = CHR ''f'' then
        (case cs of
           a # l # s # e # cs' \<Rightarrow>
             if [a, l, s, e] = ''alse'' then scan Between (Prim (JBool False) # toks) cs'
             else None
         | _ \<Rightarrow> None)
      else if c = CHR ''n'' then
        (case cs of
           u # l # l' # cs' \<Rightarrow>
             if [u, l, l'] = ''ull'' then scan Between (Prim JNull # toks) cs' else None
         | _ \<Rightarrow> None)
      else None)"
| "scan (InString acc) toks (c # cs) =
     (if c = CHR 0x22 then scan Between (Str (rev acc) # toks) cs
      else if c = CHR 0x5C then
        (case cs of
           [] \<Rightarrow> None
         | e # cs' \<Rightarrow>
             if e = CHR ''u'' then
               (case cs' of
                  h1 # h2 # h3 # h4 # cs'' \<Rightarrow>
                    (case hex4 h1 h2 h3 h4 of
                       None \<Rightarrow> None
                     | Some x \<Rightarrow> scan (InString (x # acc)) toks cs'')
                | _ \<Rightarrow> None)
             else
               (case unescape e of
                  None \<Rightarrow> None
                | Some x \<Rightarrow> scan (InString (x # acc)) toks cs'))
      else if (of_char c :: nat) < 32 then None
      else scan (InString (of_char c # acc)) toks cs)"
| "scan (InNumber acc) toks (c # cs) =
     (if isNumberChar c then scan (InNumber (c # acc)) toks cs
      else
        case numberValue (rev acc) of
          None \<Rightarrow> None
        | Some v \<Rightarrow>
            if isWhitespace c then scan Between (Prim v # toks) cs
            else if punctuation c \<noteq> None
              then scan Between (the (punctuation c) # Prim v # toks) cs
            else None)"

text \<open>
  The parser runs over the tokens with a stack of the arrays and objects that are open: of
  an array the elements read so far, of an object the members read so far and the key whose
  value is being read. \<open>parseValue\<close> expects a value; \<open>plug\<close> puts a finished value
  into the innermost open array or object. A repeated key of an object keeps its first
  place and takes the last value.
\<close>

datatype frame = InArray "jsvalue list" | InObject "(jsstring \<times> jsvalue) list" jsstring

fun parseValue :: "frame list \<Rightarrow> token list \<Rightarrow> jsvalue option"
  and plug :: "frame list \<Rightarrow> jsvalue \<Rightarrow> token list \<Rightarrow> jsvalue option" where
  "parseValue stack [] = None"
| "parseValue stack (Str s # ts) = plug stack (JString s) ts"
| "parseValue stack (Prim v # ts) = plug stack v ts"
| "parseValue stack (LBracket # ts) =
     (case ts of
        RBracket # ts' \<Rightarrow> plug stack (JArray []) ts'
      | _ \<Rightarrow> parseValue (InArray [] # stack) ts)"
| "parseValue stack (LBrace # ts) =
     (case ts of
        RBrace # ts' \<Rightarrow> plug stack (JObject []) ts'
      | Str k # Colon # ts' \<Rightarrow> parseValue (InObject [] k # stack) ts'
      | _ \<Rightarrow> None)"
| "parseValue stack (RBrace # ts) = None"
| "parseValue stack (RBracket # ts) = None"
| "parseValue stack (Colon # ts) = None"
| "parseValue stack (Comma # ts) = None"
| "plug [] v ts = (if ts = [] then Some v else None)"
| "plug (InArray vs # stack) v ts =
     (case ts of
        Comma # ts' \<Rightarrow> parseValue (InArray (vs @ [v]) # stack) ts'
      | RBracket # ts' \<Rightarrow> plug stack (JArray (vs @ [v])) ts'
      | _ \<Rightarrow> None)"
| "plug (InObject kvs k # stack) v ts =
     (case ts of
        Comma # Str k' # Colon # ts' \<Rightarrow> parseValue (InObject (AList.update k v kvs) k' # stack) ts'
      | RBrace # ts' \<Rightarrow> plug stack (JObject (AList.update k v kvs)) ts'
      | _ \<Rightarrow> None)"

definition JSON_parse :: "string \<Rightarrow> jsvalue option" where
  "JSON_parse text =
     (case scan Between [] text of
        None \<Rightarrow> None
      | Some toks \<Rightarrow> parseValue [] toks)"

subsection \<open>Reading a property of a loaded value\<close>

text \<open>
  \<^verbatim>\<open>v[key]\<close> for a value that \<^verbatim>\<open>JSON.parse\<close> returned. An object has its own properties;
  an array has its elements under their indices and \<^verbatim>\<open>length\<close>; a string has its code
  units under their indices and \<^verbatim>\<open>length\<close>. Every value but \<^verbatim>\<open>null\<close> inherits the
  properties of \<^verbatim>\<open>Object.prototype\<close>, and an array, a string, a number and a boolean
  those of its own prototype, whose names depend on the version of the runtime and are the
  parameter \<open>builtins\<close>. An inherited property is a function or a prototype object: it is
  truthy and has no data of the document. Reading a property of \<^verbatim>\<open>null\<close> throws a
  \<^verbatim>\<open>TypeError\<close>.
\<close>

datatype jskind = ArrayKind | StringKind | NumberKind | BooleanKind

datatype jsproperty = Data jsvalue | Builtin | Absent

definition inherited :: "string list \<Rightarrow> string \<Rightarrow> jsproperty" where
  "inherited names key =
     (if key \<in> set names \<or> key \<in> set objectPrototypeKeys then Builtin else Absent)"

text \<open>An index is written in decimal without a leading zero.\<close>

definition arrayIndex :: "string \<Rightarrow> nat option" where
  "arrayIndex key =
     (if key \<noteq> [] \<and> list_all isDigit key \<and> (hd key \<noteq> CHR ''0'' \<or> tl key = [])
      then Some (decimal key) else None)"

definition readProperty :: "(jskind \<Rightarrow> string list) \<Rightarrow> jsvalue \<Rightarrow> string \<Rightarrow> error + jsproperty" where
  "readProperty builtins v key =
     (case v of
        JNull \<Rightarrow> Inl (TypeError key)
      | JBool b \<Rightarrow> Inr (inherited (builtins BooleanKind) key)
      | JNumber m e \<Rightarrow> Inr (inherited (builtins NumberKind) key)
      | JString s \<Rightarrow>
          Inr (case arrayIndex key of
                 Some i \<Rightarrow>
                   if i < length s then Data (JString [s ! i])
                   else inherited (builtins StringKind) key
               | None \<Rightarrow>
                   if key = ''length'' then Data (JNumber (int (length s)) 0)
                   else inherited (builtins StringKind) key)
      | JArray vs \<Rightarrow>
          Inr (case arrayIndex key of
                 Some i \<Rightarrow>
                   if i < length vs then Data (vs ! i)
                   else inherited (builtins ArrayKind) key
               | None \<Rightarrow>
                   if key = ''length'' then Data (JNumber (int (length vs)) 0)
                   else inherited (builtins ArrayKind) key)
      | JObject kvs \<Rightarrow>
          Inr (case map_of kvs (units key) of
                 Some x \<Rightarrow> Data x
               | None \<Rightarrow> inherited [] key))"

text \<open>
  The truth value of a value in a condition: \<^verbatim>\<open>null\<close>, \<^verbatim>\<open>false\<close>, the empty string and
  a number that is zero are falsy. A decimal is rounded to the double zero when it is zero
  or its absolute value is at most two to the power -1075, half of the least positive
  double.
\<close>

definition isZero :: "int \<Rightarrow> int \<Rightarrow> bool" where
  "isZero m e = (m = 0 \<or> (e < 0 \<and> nat \<bar>m\<bar> * 2 ^ 1075 \<le> 10 ^ nat (- e)))"

fun jsTruthy :: "jsvalue \<Rightarrow> bool" where
  "jsTruthy JNull = False"
| "jsTruthy (JBool b) = b"
| "jsTruthy (JNumber m e) = (\<not> isZero m e)"
| "jsTruthy (JString s) = (s \<noteq> [])"
| "jsTruthy (JArray vs) = True"
| "jsTruthy (JObject kvs) = True"

fun toBoolean :: "jsproperty \<Rightarrow> bool" where
  "toBoolean (Data v) = jsTruthy v"
| "toBoolean Builtin = True"
| "toBoolean Absent = False"

subsection \<open>The file system, as far as the registry uses it\<close>

text \<open>
  The files are a dictionary from paths to contents. The paths at which the file system
  refuses to create a directory or to write are listed in \<open>blocked\<close>; a file that is
  missing or unreadable has no content.
\<close>

record fsys =
  files :: "(string \<times> string) list"
  blocked :: "string list"

definition mkdir :: "fsys \<Rightarrow> string \<Rightarrow> error + fsys" where
  "mkdir fs dir = (if dir \<in> set (blocked fs) then Inl (IOError dir) else Inr fs)"

definition writeFile :: "fsys \<Rightarrow> string \<Rightarrow> string \<Rightarrow> error + fsys" where
  "writeFile fs path content =
     (if path \<in> set (blocked fs) then Inl (IOError path)
      else Inr (fs\<lparr>files := AList.update path content (files fs)\<rparr>))"

definition readFile :: "fsys \<Rightarrow> string \<Rightarrow> error + string" where
  "readFile fs path =
     (case map_of (files fs) path of None \<Rightarrow> Inl (IOError path) | Some content \<Rightarrow> Inr content)"

text \<open>
  \<^verbatim>\<open>dirname(path)\<close>: from the second character on, the trailing slashes and the last
  segment are skipped; what stands before the slash found there is the directory.
\<close>

definition dirname :: "string \<Rightarrow> string" where
  "dirname p =
     (if p = [] then ''.''
      else
        let hasRoot = isSep (hd p);
            r = dropWhile (\<lambda>c. \<not> isSep c) (dropWhile isSep (rev (tl p)))
        in if r = [] then (if hasRoot then ''/'' else ''.'')
           else if hasRoot \<and> tl r = [] then ''//''
           else hd p # rev (tl r))"

subsection \<open>\<^verbatim>\<open>generateMetadataFile\<close>, \<^verbatim>\<open>ComponentResolver\<close>\<close>

definition generateMetadataFile :: "fsys \<Rightarrow> ComponentMetadata \<Rightarrow> string \<Rightarrow> error + fsys" where
  "generateMetadataFile fs metadata path =
     (let dir = dirname path
      in case mkdir fs dir of
           Inl e \<Rightarrow> Inl e
         | Inr fs1 \<Rightarrow> writeFile fs1 path (JSON_stringify metadata))"

text \<open>
  The \<^verbatim>\<open>catch\<close> of \<^verbatim>\<open>loadMetadata\<close> turns every failure, of reading the file or of
  parsing it, into the empty object; otherwise the result is what the file holds.
\<close>

definition loadMetadata :: "fsys \<Rightarrow> string \<Rightarrow> jsvalue" where
  "loadMetadata fs metadataPath =
     (case readFile fs metadataPath of
        Inl e \<Rightarrow> JObject []
      | Inr metadataContent \<Rightarrow>
          (case JSON_parse metadataContent of None \<Rightarrow> JObject [] | Some metadata \<Rightarrow> metadata))"

text \<open>
  \<^verbatim>\<open>resolveScriptPath(componentName, metadataPath)\<close>: the property \<^verbatim>\<open>scriptFileName\<close> of
  \<^verbatim>\<open>metadata[componentName]\<close> when that is truthy. The result \<open>Inr Absent\<close> is the value
  \<^verbatim>\<open>undefined\<close>; the error \<open>MetadataNotFound\<close> carries the component name that the
  message of the thrown \<^verbatim>\<open>Error\<close> quotes.
\<close>

definition resolveScriptPath ::
  "(jskind \<Rightarrow> string list) \<Rightarrow> fsys \<Rightarrow> string \<Rightarrow> string \<Rightarrow> error + jsproperty" where
  "resolveScriptPath builtins fs componentName metadataPath =
     (let metadata = loadMetadata fs metadataPath
      in case readProperty builtins metadata componentName of
           Inl e \<Rightarrow> Inl e
         | Inr componentMeta \<Rightarrow>
             if toBoolean componentMeta then
               (case componentMeta of
                  Data v \<Rightarrow> readProperty builtins v ''scriptFileName''
                | _ \<Rightarrow> Inr Absent)
             else Inl (MetadataNotFound componentName))"

section \<open>One-shot build (\<^verbatim>\<open>index.ts\<close>, \<^verbatim>\<open>utils.ts\<close>)\<close>

record PageBuildConfig =
  buildTargetDir :: string
  buildTargetFileSuffix :: string
  outputDir :: string
  metadataPath :: string

text \<open>An entry of \<^verbatim>\<open>readdir(path, { recursive: true, withFileTypes: true })\<close>.\<close>

record dirent =
  parentPath :: string
  name :: string
  isFile :: bool

definition readFiles :: "dirent list \<Rightarrow> string \<Rightarrow> string list" where
  "readFiles dirents sfx =
     map (\<lambda>file. join (parentPath file) (name file))
       (filter (\<lambda>file. isFile file \<and> endsWith (name file) sfx) dirents)"

text \<open>
  The registry entry that \<^verbatim>\<open>build\<close> and \<^verbatim>\<open>watchBuild\<close> record for a source file. The
  assignment \<^verbatim>\<open>metadata[componentName] = ...\<close> creates the own property or overwrites it
  in its place; a component name ends in \<^verbatim>\<open>Page\<close>, so it is never \<^verbatim>\<open>__proto__\<close>.
\<close>

definition registryEntry :: "string \<Rightarrow> PageBuildConfig \<Rightarrow> string \<Rightarrow> entry" where
  "registryEntry cwd cfg file =
     \<lparr> scriptFileName = toScriptFileName file (buildTargetFileSuffix cfg),
       originalPath = relative cwd (buildTargetDir cfg) file,
       outputPath = toScriptPath cwd (outputDir cfg) file (buildTargetFileSuffix cfg) \<rparr>"

definition collectMetadata :: "string \<Rightarrow> PageBuildConfig \<Rightarrow> string list \<Rightarrow> ComponentMetadata" where
  "collectMetadata cwd cfg fileList =
     foldl (\<lambda>metadata file.
              AList.update (extractComponentName file) (registryEntry cwd cfg file) metadata)
       [] fileList"

datatype outcome = Fulfilled | Rejected

text \<open>
  \<^verbatim>\<open>build\<close>: every file is handed to the bundler, whose answer to a request is the
  argument \<open>bundler\<close>; when a build is rejected, so is \<^verbatim>\<open>Promise.all\<close>, and the metadata
  file is not written.
\<close>

definition build ::
  "string \<Rightarrow> PageBuildConfig \<Rightarrow> dirent list \<Rightarrow> (esbuild_request \<Rightarrow> outcome) \<Rightarrow> fsys
     \<Rightarrow> error + fsys" where
  "build cwd cfg dirents bundler fs =
     (let fileList = readFiles dirents (buildTargetFileSuffix cfg);
          metadata = collectMetadata cwd cfg fileList;
          requests = map (buildOne cwd (outputDir cfg) (buildTargetFileSuffix cfg)) fileList
      in case filter (\<lambda>r. bundler r = Rejected) requests of
           r # rs \<Rightarrow> Inl (BuildError (outfile r))
         | [] \<Rightarrow> generateMetadataFile fs metadata (metadataPath cfg))"

section \<open>Incremental watch orchestrator (\<^verbatim>\<open>index.ts\<close>)\<close>

datatype WatchEventType = Change | Rename

text \<open>
  What \<^verbatim>\<open>statSync(path, { throwIfNoEntry: false })\<close> gives: \<^verbatim>\<open>undefined\<close> for a missing
  entry, a \<^verbatim>\<open>Stats\<close> object of a directory or of another kind of entry, or an exception.
\<close>

datatype StatResult = NoEntry | IsDirectory | IsFile | StatThrows

definition isBuild :: "WatchEventType \<Rightarrow> string \<Rightarrow> StatResult \<Rightarrow> string \<Rightarrow> bool" where
  "isBuild eventType fileName stats sfx =
     (if stats = NoEntry then False
      else if stats = IsDirectory then False
      else if \<not> endsWith fileName sfx then False
      else True)"

text \<open>
  \<^verbatim>\<open>lock(fileName)\<close> on the lock map: the flag \<open>isLock\<close> of the returned object, and the
  lock map afterwards. \<open>dispose\<close> is the \<^verbatim>\<open>Symbol.dispose\<close> of an acquired lock.
\<close>

definition lock :: "string \<Rightarrow> (string \<times> bool) list \<Rightarrow> bool \<times> (string \<times> bool) list" where
  "lock fileName lockMap =
     (if map_of lockMap fileName = Some True then (False, lockMap)
      else (True, AList.update fileName True lockMap))"

definition dispose :: "string \<Rightarrow> (string \<times> bool) list \<Rightarrow> (string \<times> bool) list" where
  "dispose fileName lockMap = AList.update fileName False lockMap"

text \<open>
  A handler of the watch callback runs until its next \<^verbatim>\<open>await\<close> and is resumed when the
  awaited promise settles. A handler in flight is its file name and what it waits for: the
  bundler, the \<^verbatim>\<open>mkdir\<close> of \<^verbatim>\<open>generateMetadataFile\<close>, or its \<^verbatim>\<open>writeFile\<close> (with the text
  that was serialised when \<^verbatim>\<open>mkdir\<close> returned). The flag tells the deletion branch, which
  goes on to remove the bundle, from the build branch.
\<close>

datatype continuation = AwaitBuild | AwaitMkdir bool | AwaitWrite bool string

datatype fsop = RmRecursive string | Unlink string

record watcher =
  metadata :: ComponentMetadata
  lockMap :: "(string \<times> bool) list"
  inflight :: "(string \<times> continuation) list"
  disk :: fsys
  bundlerCalls :: "esbuild_request list"
  bundles :: "string list"
  removals :: "fsop list"
  rejections :: "error list"

text \<open>
  The state when the watch starts: the registry of the initial scan, an empty lock map and
  no handler in flight.
\<close>

definition watching :: "ComponentMetadata \<Rightarrow> fsys \<Rightarrow> watcher" where
  "watching md fs =
     \<lparr> metadata = md, lockMap = [], inflight = [], disk = fs, bundlerCalls = [],
       bundles = [], removals = [], rejections = [] \<rparr>"

text \<open>
  \<^verbatim>\<open>watchBuild\<close> up to the start of the watch: the registry is collected from the scan, and
  the initial build must succeed.
\<close>

definition watchBuild ::
  "string \<Rightarrow> PageBuildConfig \<Rightarrow> dirent list \<Rightarrow> (esbuild_request \<Rightarrow> outcome) \<Rightarrow> fsys
     \<Rightarrow> error + watcher" where
  "watchBuild cwd cfg dirents bundler fs =
     (let fileList = readFiles dirents (buildTargetFileSuffix cfg);
          md = collectMetadata cwd cfg fileList
      in case build cwd cfg dirents bundler fs of
           Inl e \<Rightarrow> Inl e
         | Inr fs1 \<Rightarrow> Inr (watching md fs1))"

text \<open>
  \<^verbatim>\<open>deleteBuildedPageJsFile\<close>: the removal it requests (the callbacks only log), or the
  exception of its \<^verbatim>\<open>statSync\<close>. \<open>bundleStat\<close> is what the file system answers for the
  bundle path.
\<close>

definition deleteBuildedPageJsFile ::
  "string \<Rightarrow> string \<Rightarrow> string \<Rightarrow> StatResult \<Rightarrow> error + fsop list" where
  "deleteBuildedPageJsFile filePath sfx outDir bundleStat =
     (let path = toOutFile outDir filePath sfx
      in case bundleStat of
           NoEntry \<Rightarrow> Inr []
         | IsDirectory \<Rightarrow> Inr [RmRecursive path]
         | IsFile \<Rightarrow> Inr [Unlink path]
         | StatThrows \<Rightarrow> Inl (IOError path))"

text \<open>
  The \<^verbatim>\<open>finally\<close> block, and an exception that leaves the handler through it: the
  promise of the callback is rejected with the error, which is recorded here; what the
  runtime does with the rejection is not part of the model.
\<close>

definition finish :: "string \<Rightarrow> watcher \<Rightarrow> watcher" where
  "finish fileName st = st\<lparr>lockMap := dispose fileName (lockMap st)\<rparr>"

definition throw :: "error \<Rightarrow> string \<Rightarrow> watcher \<Rightarrow> watcher" where
  "throw e fileName st = finish fileName (st\<lparr>rejections := rejections st @ [e]\<rparr>)"

definition removeBundle :: "PageBuildConfig \<Rightarrow> string \<Rightarrow> StatResult \<Rightarrow> watcher \<Rightarrow> watcher" where
  "removeBundle cfg fileName bundleStat st =
     (let fullPath = join (buildTargetDir cfg) fileName
      in case deleteBuildedPageJsFile fullPath (buildTargetFileSuffix cfg) (outputDir cfg)
                bundleStat of
           Inl e \<Rightarrow> throw e fileName st
         | Inr ops \<Rightarrow> finish fileName (st\<lparr>removals := removals st @ ops\<rparr>))"

text \<open>
  The watch callback from its start to its first \<^verbatim>\<open>await\<close> (or to its end). \<open>stats\<close> is
  what the file system answers for the path of the event.
\<close>

definition onEvent ::
  "string \<Rightarrow> PageBuildConfig \<Rightarrow> WatchEventType \<Rightarrow> string option \<Rightarrow> StatResult \<Rightarrow> StatResult
     \<Rightarrow> watcher \<Rightarrow> watcher" where
  "onEvent cwd cfg eventType filename stats bundleStat st =
     (case filename of
        None \<Rightarrow> st
      | Some fileName \<Rightarrow>
          if fileName = [] then st
          else if \<not> fst (lock fileName (lockMap st)) then st
          else
            let st1 = st\<lparr>lockMap := snd (lock fileName (lockMap st))\<rparr>;
                fullPath = join (buildTargetDir cfg) fileName;
                componentName = extractComponentName fullPath
            in if stats = StatThrows then throw (IOError fullPath) fileName st1
               else if stats = NoEntry then
                 (if endsWith fileName (buildTargetFileSuffix cfg)
                     \<and> truthy (getProperty (metadata st1) componentName)
                  then st1\<lparr>metadata := AList.delete componentName (metadata st1),
                           inflight := inflight st1 @ [(fileName, AwaitMkdir True)]\<rparr>
                  else removeBundle cfg fileName bundleStat st1)
               else if \<not> isBuild eventType fileName stats (buildTargetFileSuffix cfg)
                 then finish fileName st1
               else st1\<lparr>bundlerCalls := bundlerCalls st1 @
                            [buildOne cwd (outputDir cfg) (buildTargetFileSuffix cfg) fullPath],
                        inflight := inflight st1 @ [(fileName, AwaitBuild)]\<rparr>)"

definition dropTask :: "nat \<Rightarrow> watcher \<Rightarrow> watcher" where
  "dropTask i st = st\<lparr>inflight := take i (inflight st) @ drop (Suc i) (inflight st)\<rparr>"

definition retask :: "nat \<Rightarrow> string \<Rightarrow> continuation \<Rightarrow> watcher \<Rightarrow> watcher" where
  "retask i fileName k st = st\<lparr>inflight := (inflight st)[i := (fileName, k)]\<rparr>"

text \<open>
  The bundler settles the promise that the \<open>i\<close>-th handler in flight awaits: the rest of
  the build branch up to the \<^verbatim>\<open>await\<close> inside \<^verbatim>\<open>generateMetadataFile\<close>.
\<close>

definition onBuildSettled :: "string \<Rightarrow> PageBuildConfig \<Rightarrow> nat \<Rightarrow> outcome \<Rightarrow> watcher \<Rightarrow> watcher" where
  "onBuildSettled cwd cfg i result st =
     (if i < length (inflight st) \<and> snd (inflight st ! i) = AwaitBuild then
        let fileName = fst (inflight st ! i);
            fullPath = join (buildTargetDir cfg) fileName;
            componentName = extractComponentName fullPath
        in if result = Rejected
           then throw (BuildError (toOutFile (outputDir cfg) fullPath (buildTargetFileSuffix cfg)))
                  fileName (dropTask i st)
           else
             let st1 = st\<lparr>bundles := bundles st @
                             [toOutFile (outputDir cfg) fullPath (buildTargetFileSuffix cfg)]\<rparr>
             in if \<not> truthy (getProperty (metadata st1) componentName)
                then retask i fileName (AwaitMkdir False)
                       (st1\<lparr>metadata := AList.update componentName
                                          (registryEntry cwd cfg fullPath) (metadata st1)\<rparr>)
                else finish fileName (dropTask i st1)
      else st)"

text \<open>
  The file system settles the promise that the \<open>i\<close>-th handler in flight awaits inside
  \<^verbatim>\<open>generateMetadataFile\<close>: after \<^verbatim>\<open>mkdir\<close> the registry is serialised as it is then, after
  \<^verbatim>\<open>writeFile\<close> the handler runs to its end.
\<close>

definition onIoSettled :: "PageBuildConfig \<Rightarrow> nat \<Rightarrow> StatResult \<Rightarrow> watcher \<Rightarrow> watcher" where
  "onIoSettled cfg i bundleStat st =
     (if i < length (inflight st) then
        let fileName = fst (inflight st ! i)
        in case snd (inflight st ! i) of
             AwaitBuild \<Rightarrow> st
           | AwaitMkdir removal \<Rightarrow>
               (case mkdir (disk st) (dirname (metadataPath cfg)) of
                  Inl e \<Rightarrow> throw e fileName (dropTask i st)
                | Inr fs1 \<Rightarrow>
                    retask i fileName (AwaitWrite removal (JSON_stringify (metadata st)))
                      (st\<lparr>disk := fs1\<rparr>))
           | AwaitWrite removal content \<Rightarrow>
               (case writeFile (disk st) (metadataPath cfg) content of
                  Inl e \<Rightarrow> throw e fileName (dropTask i st)
                | Inr fs1 \<Rightarrow>
                    if removal then removeBundle cfg fileName bundleStat (dropTask i (st\<lparr>disk := fs1\<rparr>))
                    else finish fileName (dropTask i (st\<lparr>disk := fs1\<rparr>)))
      else st)"

text \<open>What happens to the watcher: an event of the watch, or an awaited promise settles.\<close>

datatype action =
    Event WatchEventType "string option" StatResult StatResult
  | BuildSettled nat outcome
  | IoSettled nat StatResult

fun step :: "string \<Rightarrow> PageBuildConfig \<Rightarrow> watcher \<Rightarrow> action \<Rightarrow> watcher" where
  "step cwd cfg st (Event eventType filename stats bundleStat) =
     onEvent cwd cfg eventType filename stats bundleStat st"
| "step cwd cfg st (BuildSettled i result) = onBuildSettled cwd cfg i result st"
| "step cwd cfg st (IoSettled i bundleStat) = onIoSettled cfg i bundleStat st"

definition run :: "string \<Rightarrow> PageBuildConfig \<Rightarrow> watcher \<Rightarrow> action list \<Rightarrow> watcher" where
  "run cwd cfg st acts = foldl (step cwd cfg) st acts"

text \<open>The lock of a file name is held when the lock map has \<^verbatim>\<open>true\<close> for it.\<close>

definition held :: "watcher \<Rightarrow> string \<Rightarrow> bool" where
  "held st fileName = (map_of (lockMap st) fileName = Some True)"

section \<open>The running example\<close>

text \<open>
  The concrete inputs at which the theorems below are evaluated: a project at
  \<^verbatim>\<open>/home/dev/app\<close> whose configuration has the suffix \<^verbatim>\<open>page.tsx\<close>, the page
  \<^verbatim>\<open>user/register.page.tsx\<close> below \<^verbatim>\<open>src/pages\<close> with its registry entry, a disk that
  holds the metadata file of that one entry, and a watcher that starts with that registry.
\<close>

definition demoConfig :: PageBuildConfig where
  "demoConfig =
     \<lparr> buildTargetDir = ''src/pages'', buildTargetFileSuffix = ''page.tsx'',
       outputDir = ''public/js'', metadataPath = ''build/metadata.json'' \<rparr>"

definition demoEntry :: entry where
  "demoEntry =
     \<lparr> scriptFileName = ''register.page.js'', originalPath = ''user/register.page.tsx'',
       outputPath = ''public/js/src/pages/user/register.page.js'' \<rparr>"

definition demoDisk :: fsys where
  "demoDisk =
     \<lparr> files = [(''build/metadata.json'', JSON_stringify [(''RegisterPage'', demoEntry)])],
       blocked = [] \<rparr>"

definition demoWatcher :: watcher where
  "demoWatcher = watching [(''RegisterPage'', demoEntry)] demoDisk"

text \<open>
  A disk whose metadata file holds a given text, and the names of some of the properties
  that arrays, strings and numbers inherit.
\<close>

definition document :: "string \<Rightarrow> fsys" where
  "document content = \<lparr> files = [(''build/metadata.json'', content)], blocked = [] \<rparr>"

definition demoBuiltins :: "jskind \<Rightarrow> string list" where
  "demoBuiltins kind =
     (case kind of
        ArrayKind \<Rightarrow> [''push'', ''pop'', ''map'', ''join'']
      | StringKind \<Rightarrow> [''charAt'', ''slice'', ''split'']
      | NumberKind \<Rightarrow> [''toFixed'']
      | BooleanKind \<Rightarrow> [])"

text \<open>
  A metadata file that the build did not write: \<^verbatim>\<open>APage\<close> is an entry with a
  \<^verbatim>\<open>scriptFileName\<close> alone, \<^verbatim>\<open>BPage\<close> is \<^verbatim>\<open>false\<close>, \<^verbatim>\<open>CPage\<close> is an empty
  object.
\<close>

definition demoDocument :: fsys where
  "demoDocument =
     document (''{'' @ quoteJSONString ''APage'' @ '': {'' @ quoteJSONString ''scriptFileName'' @
                 '': '' @ quoteJSONString ''a.js'' @ ''}, '' @
               quoteJSONString ''BPage'' @ '': false, '' @
               quoteJSONString ''CPage'' @ '': {}}'')"

text \<open>The definitions that the evaluation of a concrete input unfolds.\<close>

lemmas naming_eval =
  extractComponentName_def basename_def isSep_def stripPageExt_def
  endsWith_def suffix_to_prefix capitalize_def toUpperCase_def toLowerCase_def toUpperChar_def
  toLowerChar_def isWordSep_def

lemmas watch_eval =
  run_def onEvent_def onBuildSettled_def onIoSettled_def watching_def lock_def dispose_def
  finish_def throw_def removeBundle_def deleteBuildedPageJsFile_def dropTask_def retask_def
  isBuild_def held_def getProperty_def truthy_def objectPrototypeKeys_def
  buildOne_def Let_def

text \<open>The values of the example: full path, component name, bundle file, registry entry.\<close>

lemma demoConfig_fields:
  "buildTargetDir demoConfig = ''src/pages''" "buildTargetFileSuffix demoConfig = ''page.tsx''"
  "outputDir demoConfig = ''public/js''" "metadataPath demoConfig = ''build/metadata.json''"
  by (simp_all add: demoConfig_def)

lemma demo_fullPath:
  "join ''src/pages'' ''user/register.page.tsx'' = ''src/pages/user/register.page.tsx''"
  by (simp add: join_def normalize_path_def isSep_def)

lemma demo_componentName:
  "extractComponentName ''src/pages/user/register.page.tsx'' = ''RegisterPage''"
  by (simp add: naming_eval)

lemma demo_outFile:
  "toOutFile ''public/js'' ''src/pages/user/register.page.tsx'' ''page.tsx''
     = ''public/js/register.page.js''"
  by (simp add: toOutFile_def basename_def isSep_def)

lemma demo_relative:
  "relative ''/home/dev/app'' ''.'' ''src/pages/user/register.page.tsx''
     = ''src/pages/user/register.page.tsx''"
  by (simp add: relative_def resolve_def isSep_def)

lemma demo_registryEntry:
  "registryEntry ''/home/dev/app'' demoConfig ''src/pages/user/register.page.tsx'' = demoEntry"
  by (simp add: registryEntry_def demoConfig_def demoEntry_def toScriptFileName_def
      toScriptPath_def demo_relative basename_def relative_def resolve_def isSep_def)

lemma demo_endsWith: "endsWith ''user/register.page.tsx'' ''page.tsx''"
  by (simp add: endsWith_def suffix_to_prefix)

lemmas demo_values =
  demo_fullPath demo_componentName demo_outFile demo_relative demo_registryEntry demo_endsWith

lemmas demo_eval = watch_eval demoConfig_fields demo_values demoWatcher_def

section \<open>Properties of the naming resolver\<close>

text \<open>
  The reference computation of a component name, in the words of the specification: take
  the base name, strip the configured suffix (the base name is assumed to end in it), split
  on \<^verbatim>\<open>.\<close>, \<^verbatim>\<open>-\<close>, \<^verbatim>\<open>_\<close>, capitalise the first letter of every segment and lower-case
  the rest, concatenate, and append \<^verbatim>\<open>Page\<close>.
\<close>

definition referenceComponentName :: "string \<Rightarrow> string \<Rightarrow> string" where
  "referenceComponentName sfx p =
     (let b = basename p;
          stem = take (length b - length sfx) b
      in concat (map capitalize (splitOn isWordSep stem)) @ ''Page'')"

text \<open>A path segment that is a name: not empty, not \<^verbatim>\<open>.\<close> or \<^verbatim>\<open>..\<close>, without a slash.\<close>

definition plainSegment :: "string \<Rightarrow> bool" where
  "plainSegment s = (s \<noteq> [] \<and> s \<noteq> ''.'' \<and> s \<noteq> ''..'' \<and> CHR ''/'' \<notin> set s)"

subsection \<open>Splitting and joining\<close>

lemma splitOn_nonempty: "splitOn P s \<noteq> []"
  by (induction s) (auto split: list.splits)

lemma splitOn_none: "\<forall>c\<in>set s. \<not> P c \<Longrightarrow> splitOn P s = [s]"
  by (induction s) auto

lemma splitOn_append_sep: "P c \<Longrightarrow> splitOn P (x @ c # y) = splitOn P x @ splitOn P y"
proof (induction x)
  case Nil
  then show ?case by simp
next
  case (Cons a x)
  obtain w ws where w: "splitOn P x = w # ws"
    using splitOn_nonempty[of P x] by (cases "splitOn P x") auto
  with Cons show ?case by simp
qed

lemma joinWith_snoc: "ds \<noteq> [] \<Longrightarrow> joinWith sep (ds @ [f]) = joinWith sep ds @ sep @ f"
  by (induction sep ds rule: joinWith.induct) auto

lemma splitOn_joinWith:
  "segs \<noteq> [] \<Longrightarrow> \<forall>s\<in>set segs. CHR ''/'' \<notin> set s \<Longrightarrow>
     splitOn isSep (joinWith ''/'' segs) = segs"
proof (induction "''/''" segs rule: joinWith.induct)
  case 1
  then show ?case by simp
next
  case (2 w)
  then show ?case using splitOn_none[of w isSep] by (auto simp: isSep_def)
next
  case (3 w v ws)
  have "splitOn isSep (w @ CHR ''/'' # joinWith ''/'' (v # ws)) =
        splitOn isSep w @ splitOn isSep (joinWith ''/'' (v # ws))"
    by (rule splitOn_append_sep) (simp add: isSep_def)
  moreover have "splitOn isSep w = [w]"
    using 3(3) splitOn_none[of w isSep] by (auto simp: isSep_def)
  moreover have "splitOn isSep (joinWith ''/'' (v # ws)) = v # ws" using 3 by simp
  ultimately show ?case by simp
qed

subsection \<open>Component names\<close>

lemma endsWith_last: "endsWith b (t @ [c]) \<Longrightarrow> last b = c"
  by (auto simp: endsWith_def suffix_def)

lemma endsWith_ts_not_tsx: "endsWith b ''.page.ts'' \<Longrightarrow> \<not> endsWith b ''.page.tsx''"
proof
  assume a: "endsWith b ''.page.ts''" and b: "endsWith b ''.page.tsx''"
  have "last b = CHR ''s''" using endsWith_last[of b "''.page.t''" "CHR ''s''"] a by simp
  moreover have "last b = CHR ''x''" using endsWith_last[of b "''.page.ts''" "CHR ''x''"] b by simp
  ultimately show False by simp
qed

lemma stripPageExt_tsx:
  assumes "endsWith b ''.page.tsx''"
  shows "stripPageExt b = take (length b - length ''.page.tsx'') b"
proof -
  have l: "length ''.page.tsx'' = 9" by simp
  show ?thesis unfolding l using assms by (simp add: stripPageExt_def)
qed

lemma stripPageExt_ts:
  assumes "endsWith b ''.page.ts''"
  shows "stripPageExt b = take (length b - length ''.page.ts'') b"
proof -
  have l: "length ''.page.ts'' = 8" by simp
  show ?thesis
    unfolding l using assms endsWith_ts_not_tsx[of b] by (simp add: stripPageExt_def)
qed

lemma extractComponentName_example:
  "extractComponentName ''user-profile.page.tsx'' = ''UserProfilePage''"
  by (simp add: naming_eval)

lemma capitalize_empty: "capitalize [] = []"
  by (simp add: capitalize_def toUpperCase_def toLowerCase_def)

lemma pascal_trailing_dot:
  "concat (map capitalize (splitOn isWordSep (stem @ ''.'')))
     = concat (map capitalize (splitOn isWordSep stem))"
proof -
  have "splitOn isWordSep (stem @ CHR ''.'' # []) = splitOn isWordSep stem @ splitOn isWordSep []"
    by (rule splitOn_append_sep) (simp add: isWordSep_def)
  then show ?thesis by (simp add: capitalize_empty)
qed

lemma reference_with_dot:
  assumes "endsWith b ending" "ending = CHR ''.'' # sfx"
  shows "take (length b - length ending) b @ ''.'' = take (length b - length sfx) b"
proof -
  from assms obtain z where b: "b = z @ CHR ''.'' # sfx"
    by (auto simp: endsWith_def suffix_def)
  then show ?thesis using assms(2) by simp
qed

lemma extractComponentName_ends_Page: "endsWith (extractComponentName p) ''Page''"
  by (simp add: extractComponentName_def endsWith_def Let_def suffix_def)

text \<open>
  A component name is not the name of a property that objects inherit, so the registry is
  read and written at own properties only.
\<close>

lemma extractComponentName_not_inherited: "extractComponentName p \<notin> set objectPrototypeKeys"
proof
  assume "extractComponentName p \<in> set objectPrototypeKeys"
  moreover have "\<not> endsWith k ''Page''" if "k \<in> set objectPrototypeKeys" for k
    using that by (auto simp: objectPrototypeKeys_def endsWith_def suffix_to_prefix)
  ultimately show False using extractComponentName_ends_Page[of p] by blast
qed

lemma truthy_componentName:
  "truthy (getProperty md (extractComponentName p)) = (map_of md (extractComponentName p) \<noteq> None)"
  using extractComponentName_not_inherited[of p]
  by (auto simp: truthy_def getProperty_def split: option.splits)

text \<open>
  C5 (as amended). \<^verbatim>\<open>extractComponentName\<close> takes no suffix: it strips the ending
  \<^verbatim>\<open>.page.tsx\<close> or \<^verbatim>\<open>.page.ts\<close> of the base name. When the base name has one of these
  endings and the configured suffix is that ending, with or without its leading dot, the
  result is the reference computation (base name, suffix stripped, split on \<^verbatim>\<open>.\<close>,
  \<^verbatim>\<open>-\<close>, \<^verbatim>\<open>_\<close>, every segment capitalised, \<^verbatim>\<open>Page\<close> appended). The result depends on
  the base name only, and \<^verbatim>\<open>user-profile.page.tsx\<close> gives \<^verbatim>\<open>UserProfilePage\<close>.
\<close>

theorem extractComponentName_reference:
  "((endsWith (basename p) ''.page.tsx'' \<and> (sfx = ''.page.tsx'' \<or> sfx = ''page.tsx''))
      \<or> (endsWith (basename p) ''.page.ts'' \<and> (sfx = ''.page.ts'' \<or> sfx = ''page.ts'')) \<longrightarrow>
      extractComponentName p = referenceComponentName sfx p)
   \<and> (basename p = basename q \<longrightarrow> extractComponentName p = extractComponentName q)
   \<and> extractComponentName ''user-profile.page.tsx'' = ''UserProfilePage''"
proof (intro conjI impI)
  let ?b = "basename p"
  assume a: "(endsWith ?b ''.page.tsx'' \<and> (sfx = ''.page.tsx'' \<or> sfx = ''page.tsx''))
      \<or> (endsWith ?b ''.page.ts'' \<and> (sfx = ''.page.ts'' \<or> sfx = ''page.ts''))"
  have dotted: "extractComponentName p = referenceComponentName ending p"
    if "endsWith ?b ending" "stripPageExt ?b = take (length ?b - length ending) ?b" for ending
    using that by (simp add: extractComponentName_def referenceComponentName_def Let_def)
  have bare: "extractComponentName p = referenceComponentName sfx' p"
    if e: "endsWith ?b ending" "stripPageExt ?b = take (length ?b - length ending) ?b"
      and d: "ending = CHR ''.'' # sfx'" for ending sfx'
  proof -
    have "concat (map capitalize (splitOn isWordSep (take (length ?b - length sfx') ?b)))
        = concat (map capitalize (splitOn isWordSep (take (length ?b - length ending) ?b)))"
      unfolding reference_with_dot[OF e(1) d, symmetric] by (rule pascal_trailing_dot)
    then show ?thesis
      using e(2) by (simp add: extractComponentName_def referenceComponentName_def Let_def)
  qed
  from a consider
      (tsx) "endsWith ?b ''.page.tsx''" "sfx = ''.page.tsx''"
    | (tsx') "endsWith ?b ''.page.tsx''" "sfx = ''page.tsx''"
    | (ts) "endsWith ?b ''.page.ts''" "sfx = ''.page.ts''"
    | (ts') "endsWith ?b ''.page.ts''" "sfx = ''page.ts''"
    by blast
  then show "extractComponentName p = referenceComponentName sfx p"
  proof cases
    case tsx
    from dotted[OF tsx(1) stripPageExt_tsx[OF tsx(1)]] tsx(2) show ?thesis by simp
  next
    case tsx'
    from bare[OF tsx'(1) stripPageExt_tsx[OF tsx'(1)], of "''page.tsx''"] tsx'(2)
    show ?thesis by simp
  next
    case ts
    from dotted[OF ts(1) stripPageExt_ts[OF ts(1)]] ts(2) show ?thesis by simp
  next
    case ts'
    from bare[OF ts'(1) stripPageExt_ts[OF ts'(1)], of "''page.ts''"] ts'(2)
    show ?thesis by simp
  qed
next
  assume "basename p = basename q"
  then show "extractComponentName p = extractComponentName q"
    by (simp add: extractComponentName_def)
next
  show "extractComponentName ''user-profile.page.tsx'' = ''UserProfilePage''"
    by (rule extractComponentName_example)
qed

theorem extractComponentName_reference_witness:
  "endsWith (basename ''src/pages/user-profile.page.tsx'') ''.page.tsx''
   \<and> extractComponentName ''src/pages/user-profile.page.tsx''
       = referenceComponentName ''.page.tsx'' ''src/pages/user-profile.page.tsx''
   \<and> extractComponentName ''src/pages/user-profile.page.tsx''
       = referenceComponentName ''page.tsx'' ''src/pages/user-profile.page.tsx''
   \<and> basename ''src/pages/user-profile.page.tsx'' = basename ''admin/user-profile.page.tsx''
   \<and> extractComponentName ''src/pages/user-profile.page.tsx''
       = extractComponentName ''admin/user-profile.page.tsx''"
proof -
  have h1: "endsWith (basename ''src/pages/user-profile.page.tsx'') ''.page.tsx''"
    by (simp add: basename_def isSep_def endsWith_def suffix_to_prefix)
  have h2: "basename ''src/pages/user-profile.page.tsx'' = basename ''admin/user-profile.page.tsx''"
    by (simp add: basename_def isSep_def)
  from extractComponentName_reference
         [of "''src/pages/user-profile.page.tsx''" "''.page.tsx''" "''admin/user-profile.page.tsx''"]
       h1
  have a: "extractComponentName ''src/pages/user-profile.page.tsx''
       = referenceComponentName ''.page.tsx'' ''src/pages/user-profile.page.tsx''" by blast
  from extractComponentName_reference
         [of "''src/pages/user-profile.page.tsx''" "''page.tsx''" "''admin/user-profile.page.tsx''"]
       h1
  have a': "extractComponentName ''src/pages/user-profile.page.tsx''
       = referenceComponentName ''page.tsx'' ''src/pages/user-profile.page.tsx''" by blast
  from extractComponentName_reference
         [of "''src/pages/user-profile.page.tsx''" "''.page.tsx''" "''admin/user-profile.page.tsx''"]
       h2
  have b: "extractComponentName ''src/pages/user-profile.page.tsx''
       = extractComponentName ''admin/user-profile.page.tsx''" by blast
  from h1 a a' h2 b show ?thesis by (intro conjI)
qed

text \<open>
  C5 as stated fails: with the configured suffix \<^verbatim>\<open>.view.tsx\<close> the base name
  \<^verbatim>\<open>home.view.tsx\<close> ends in the suffix, the reference computation gives \<^verbatim>\<open>HomePage\<close>, and
  the code, which knows nothing of the configured suffix, gives \<^verbatim>\<open>HomeViewTsxPage\<close>.
\<close>

theorem extractComponentName_configured_suffix_counterexample:
  "endsWith (basename ''home.view.tsx'') ''.view.tsx''
   \<and> extractComponentName ''home.view.tsx'' = ''HomeViewTsxPage''
   \<and> referenceComponentName ''.view.tsx'' ''home.view.tsx'' = ''HomePage''
   \<and> extractComponentName ''home.view.tsx'' \<noteq> referenceComponentName ''.view.tsx'' ''home.view.tsx''"
  by (simp add: naming_eval referenceComponentName_def)

subsection \<open>Removing the first occurrence\<close>

lemma length_replaceFirst:
  "sublist pat s \<Longrightarrow> length (replaceFirst pat s) = length s - length pat"
proof (induction s)
  case Nil
  then show ?case by simp
next
  case (Cons c cs)
  show ?case
  proof (cases "prefix pat (c # cs)")
    case True
    then show ?thesis by simp
  next
    case False
    with Cons.prems have sub: "sublist pat cs" by (simp add: sublist_Cons_right)
    then have "length pat \<le> length cs" by (auto simp: sublist_def)
    with False sub Cons.IH show ?thesis by simp
  qed
qed

lemma prefix_before_sep:
  "prefix xs (ys @ z # zs) \<Longrightarrow> z \<notin> set xs \<Longrightarrow> prefix xs ys"
proof (induction xs arbitrary: ys)
  case Nil
  then show ?case by simp
next
  case (Cons x xs)
  show ?case
  proof (cases ys)
    case Nil
    with Cons.prems show ?thesis by simp
  next
    case (Cons y ys')
    with Cons.prems have "x = y" "prefix xs (ys' @ z # zs)" "z \<notin> set xs" by simp_all
    with Cons.IH[of ys'] Cons show ?thesis by simp
  qed
qed

lemma replaceFirst_dir:
  assumes "sfx \<noteq> []" "CHR ''/'' \<notin> set sfx" "\<not> sublist sfx d"
  shows "replaceFirst sfx (d @ ''/'' @ f) = d @ ''/'' @ replaceFirst sfx f"
  using assms(3)
proof (induction d)
  case Nil
  from assms(1,2) have "\<not> prefix sfx (CHR ''/'' # f)"
    by (cases sfx) auto
  then show ?case by simp
next
  case (Cons c d)
  have np: "\<not> prefix sfx (c # d @ ''/'' @ f)"
  proof
    assume "prefix sfx (c # d @ ''/'' @ f)"
    then have "prefix sfx ((c # d) @ CHR ''/'' # f)" by simp
    from prefix_before_sep[OF this assms(2)] have "prefix sfx (c # d)" .
    then have "sublist sfx (c # d)" by (rule prefix_imp_sublist)
    with Cons.prems show False by simp
  qed
  from Cons.prems have "\<not> sublist sfx d" by (simp add: sublist_Cons_right)
  with Cons.IH np show ?case by simp
qed

subsection \<open>Paths below the working directory\<close>

lemma normalizeString_plain:
  "\<forall>s\<in>set segs. plainSegment s \<Longrightarrow> normalizeString a acc segs = rev acc @ segs"
  by (induction segs arbitrary: acc) (auto simp: plainSegment_def)

lemma normalizeString_append:
  "normalizeString a acc (xs @ ys) = normalizeString a (rev (normalizeString a acc xs)) ys"
  by (induction a acc xs rule: normalizeString.induct) (auto split: list.splits)

lemma longest_common_prefix_append: "longest_common_prefix f (f @ r) = f"
  by (induction f) auto

lemma resolve_dot: "resolve cwd ''.'' = normalizeString False [] (splitOn isSep cwd)"
proof -
  have "splitOn isSep (cwd @ CHR ''/'' # ''.'') = splitOn isSep cwd @ splitOn isSep ''.''"
    by (rule splitOn_append_sep) (simp add: isSep_def)
  then show ?thesis
    by (simp add: resolve_def isSep_def normalizeString_append[of False "[]" "splitOn isSep cwd"])
qed

lemma resolve_below:
  assumes "segs \<noteq> []" "\<forall>s\<in>set segs. plainSegment s"
  shows "resolve cwd (joinWith ''/'' segs) = normalizeString False [] (splitOn isSep cwd) @ segs"
proof -
  let ?p = "joinWith ''/'' segs"
  obtain s ss where segs: "segs = s # ss" using assms(1) by (cases segs) auto
  with assms(2) have s: "s \<noteq> []" "CHR ''/'' \<notin> set s" by (auto simp: plainSegment_def)
  then obtain c cs where c: "s = c # cs" "c \<noteq> CHR ''/''" by (cases s) auto
  have hd: "?p \<noteq> [] \<and> \<not> isSep (hd ?p)"
    using segs c by (cases ss) (auto simp: isSep_def)
  have "splitOn isSep (cwd @ CHR ''/'' # ?p) = splitOn isSep cwd @ splitOn isSep ?p"
    by (rule splitOn_append_sep) (simp add: isSep_def)
  moreover have "splitOn isSep ?p = segs"
    using assms by (intro splitOn_joinWith) (auto simp: plainSegment_def)
  ultimately show ?thesis
    using hd assms(2)
    by (simp add: resolve_def normalizeString_append[of False "[]" "splitOn isSep cwd"]
        normalizeString_plain)
qed

lemma relative_below:
  assumes "segs \<noteq> []" "\<forall>s\<in>set segs. plainSegment s"
  shows "relative cwd ''.'' (joinWith ''/'' segs) = joinWith ''/'' segs"
  unfolding relative_def resolve_dot resolve_below[OF assms] Let_def
  by (simp add: longest_common_prefix_append)

text \<open>
  C6 (as amended). For a path below the project root, given by its directory segments
  \<open>ds\<close> and its file name \<open>f\<close> (none of them empty, \<^verbatim>\<open>.\<close> or \<^verbatim>\<open>..\<close>), and a suffix
  without a slash that does not occur in the directory part, \<^verbatim>\<open>toScriptPath\<close> keeps the
  directories: the result is the output directory, the directories, and the file name with
  the first occurrence of the suffix removed and \<^verbatim>\<open>page.js\<close> appended. With the suffix
  \<^verbatim>\<open>page.tsx\<close> the path \<^verbatim>\<open>a/b/file.page.tsx\<close> gives \<^verbatim>\<open>outputDir/a/b/file.page.js\<close>.
\<close>

theorem toScriptPath_preserves_directories:
  "(ds \<noteq> [] \<and> (\<forall>s\<in>set (ds @ [f]). plainSegment s) \<and> sfx \<noteq> [] \<and> CHR ''/'' \<notin> set sfx
      \<and> \<not> sublist sfx (joinWith ''/'' ds) \<longrightarrow>
    toScriptPath cwd outDir (joinWith ''/'' (ds @ [f])) sfx
      = outDir @ ''/'' @ joinWith ''/'' ds @ ''/'' @ replaceFirst sfx f @ ''page.js'')
   \<and> toScriptPath cwd outDir ''a/b/file.page.tsx'' ''page.tsx'' = outDir @ ''/a/b/file.page.js''"
proof -
  have general: "toScriptPath cwd outDir (joinWith ''/'' (ds @ [f])) sfx
      = outDir @ ''/'' @ joinWith ''/'' ds @ ''/'' @ replaceFirst sfx f @ ''page.js''"
    if a: "ds \<noteq> []" "\<forall>s\<in>set (ds @ [f]). plainSegment s" "sfx \<noteq> []" "CHR ''/'' \<notin> set sfx"
          "\<not> sublist sfx (joinWith ''/'' ds)"
    for ds f sfx
  proof -
    have "relative cwd ''.'' (joinWith ''/'' (ds @ [f])) = joinWith ''/'' (ds @ [f])"
      using a(2) by (intro relative_below) auto
    also have "\<dots> = joinWith ''/'' ds @ ''/'' @ f"
      using a(1) by (rule joinWith_snoc)
    finally show ?thesis
      using replaceFirst_dir[OF a(3,4,5), of f] by (simp add: toScriptPath_def)
  qed
  have "toScriptPath cwd outDir (joinWith ''/'' ([''a'', ''b''] @ [''file.page.tsx''])) ''page.tsx''
      = outDir @ ''/'' @ joinWith ''/'' [''a'', ''b''] @ ''/'' @
        replaceFirst ''page.tsx'' ''file.page.tsx'' @ ''page.js''"
    by (rule general) (simp_all add: plainSegment_def sublist_Cons_right)
  then have "toScriptPath cwd outDir ''a/b/file.page.tsx'' ''page.tsx'' = outDir @ ''/a/b/file.page.js''"
    by simp
  with general show ?thesis by blast
qed

theorem toScriptPath_preserves_directories_witness:
  "[''src'', ''pages'', ''user''] \<noteq> []
   \<and> list_all plainSegment ([''src'', ''pages'', ''user''] @ [''register.page.tsx''])
   \<and> ''page.tsx'' \<noteq> [] \<and> CHR ''/'' \<notin> set ''page.tsx''
   \<and> \<not> sublist ''page.tsx'' (joinWith ''/'' [''src'', ''pages'', ''user''])
   \<and> toScriptPath ''/home/dev/app'' ''public/js'' ''src/pages/user/register.page.tsx'' ''page.tsx''
       = ''public/js/src/pages/user/register.page.js''"
proof -
  have h: "[''src'', ''pages'', ''user''] \<noteq> []
      \<and> (\<forall>s\<in>set ([''src'', ''pages'', ''user''] @ [''register.page.tsx'']). plainSegment s)
      \<and> ''page.tsx'' \<noteq> [] \<and> CHR ''/'' \<notin> set ''page.tsx''
      \<and> \<not> sublist ''page.tsx'' (joinWith ''/'' [''src'', ''pages'', ''user''])"
    by (simp add: plainSegment_def sublist_Cons_right)
  from toScriptPath_preserves_directories
         [of "[''src'', ''pages'', ''user'']" "''register.page.tsx''" "''page.tsx''"
             "''/home/dev/app''" "''public/js''"] h
  have "toScriptPath ''/home/dev/app'' ''public/js''
          (joinWith ''/'' ([''src'', ''pages'', ''user''] @ [''register.page.tsx''])) ''page.tsx''
        = ''public/js'' @ ''/'' @ joinWith ''/'' [''src'', ''pages'', ''user''] @ ''/'' @
          replaceFirst ''page.tsx'' ''register.page.tsx'' @ ''page.js''"
    by blast
  then have "toScriptPath ''/home/dev/app'' ''public/js'' ''src/pages/user/register.page.tsx'' ''page.tsx''
       = ''public/js/src/pages/user/register.page.js''"
    by simp
  with h show ?thesis by (simp add: list_all_iff)
qed

text \<open>
  C6 as stated fails for the suffix \<^verbatim>\<open>.page.tsx\<close>: the whole suffix is removed and
  \<^verbatim>\<open>page.js\<close> has no dot of its own, so \<^verbatim>\<open>a/b/file.page.tsx\<close> gives
  \<^verbatim>\<open>outputDir/a/b/filepage.js\<close>.
\<close>

theorem toScriptPath_dot_suffix_counterexample:
  "toScriptPath ''/home/dev/app'' ''outputDir'' ''a/b/file.page.tsx'' ''.page.tsx''
     = ''outputDir/a/b/filepage.js''
   \<and> toScriptPath ''/home/dev/app'' ''outputDir'' ''a/b/file.page.tsx'' ''.page.tsx''
     \<noteq> ''outputDir/a/b/file.page.js''"
  by (simp add: toScriptPath_def relative_def resolve_def isSep_def)

subsection \<open>Where the bundle is written\<close>

lemma endsWith_sublist: "endsWith s t \<Longrightarrow> sublist t s"
  by (simp add: endsWith_def suffix_imp_sublist)

lemma toOutFile_neq_toScriptPath:
  assumes rel: "relative cwd ''.'' p = d @ ''/'' @ basename p"
      and sfx: "endsWith (basename p) sfx"
  shows "toOutFile outDir p sfx \<noteq> toScriptPath cwd outDir p sfx"
proof -
  let ?b = "basename p"
  have sb: "sublist sfx ?b" using sfx by (rule endsWith_sublist)
  then have le: "length sfx \<le> length ?b" by (auto simp: sublist_def)
  have "sublist sfx ((d @ ''/'') @ ?b)"
  proof -
    from sb obtain ps ss where "?b = ps @ sfx @ ss" by (auto simp: sublist_def)
    then have "(d @ ''/'') @ ?b = ((d @ ''/'') @ ps) @ sfx @ ss" by simp
    then show ?thesis unfolding sublist_def by blast
  qed
  then have "length (replaceFirst sfx (d @ ''/'' @ ?b)) = length (d @ ''/'' @ ?b) - length sfx"
    by (intro length_replaceFirst) simp
  moreover have "length (replaceFirst sfx ?b) = length ?b - length sfx"
    using sb by (rule length_replaceFirst)
  ultimately have "length (replaceFirst sfx (d @ ''/'' @ ?b)) \<noteq> length (replaceFirst sfx ?b)"
    using le by simp
  then have "replaceFirst sfx (d @ ''/'' @ ?b) \<noteq> replaceFirst sfx ?b" by auto
  then show ?thesis by (simp add: toOutFile_def toScriptPath_def rel)
qed

text \<open>
  C4. The request that the build invoker hands to the bundler writes the bundle to the flat
  path: output directory, slash, base name with the first occurrence of the suffix removed,
  \<^verbatim>\<open>page.js\<close>. For a source file whose path relative to the project root has a directory
  part \<open>d\<close> before its base name, and whose base name ends in the suffix, this is not the
  \<open>outputPath\<close> of the registry entry of the file; and two source files with the same
  base name are written to the same bundle file.
\<close>

theorem bundle_written_to_flat_path:
  "outfile (buildOne cwd (outputDir cfg) (buildTargetFileSuffix cfg) p)
     = outputDir cfg @ ''/'' @ replaceFirst (buildTargetFileSuffix cfg) (basename p) @ ''page.js''
   \<and> (relative cwd ''.'' p = d @ ''/'' @ basename p
        \<and> endsWith (basename p) (buildTargetFileSuffix cfg) \<longrightarrow>
      outfile (buildOne cwd (outputDir cfg) (buildTargetFileSuffix cfg) p)
        \<noteq> outputPath (registryEntry cwd cfg p))
   \<and> (basename p = basename q \<longrightarrow>
      outfile (buildOne cwd (outputDir cfg) (buildTargetFileSuffix cfg) p)
        = outfile (buildOne cwd (outputDir cfg) (buildTargetFileSuffix cfg) q))"
proof (intro conjI impI)
  show "outfile (buildOne cwd (outputDir cfg) (buildTargetFileSuffix cfg) p)
     = outputDir cfg @ ''/'' @ replaceFirst (buildTargetFileSuffix cfg) (basename p) @ ''page.js''"
    by (simp add: buildOne_def toOutFile_def)
next
  assume "relative cwd ''.'' p = d @ ''/'' @ basename p
        \<and> endsWith (basename p) (buildTargetFileSuffix cfg)"
  then show "outfile (buildOne cwd (outputDir cfg) (buildTargetFileSuffix cfg) p)
        \<noteq> outputPath (registryEntry cwd cfg p)"
    using toOutFile_neq_toScriptPath[of cwd p d "buildTargetFileSuffix cfg" "outputDir cfg"]
    by (simp add: buildOne_def registryEntry_def)
next
  assume "basename p = basename q"
  then show "outfile (buildOne cwd (outputDir cfg) (buildTargetFileSuffix cfg) p)
        = outfile (buildOne cwd (outputDir cfg) (buildTargetFileSuffix cfg) q)"
    by (simp add: buildOne_def toOutFile_def)
qed

theorem bundle_written_to_flat_path_witness:
  "relative ''/home/dev/app'' ''.'' ''src/pages/user/register.page.tsx''
     = ''src/pages/user'' @ ''/'' @ basename ''src/pages/user/register.page.tsx''
   \<and> endsWith (basename ''src/pages/user/register.page.tsx'') (buildTargetFileSuffix demoConfig)
   \<and> basename ''src/pages/user/register.page.tsx'' = basename ''src/pages/video/register.page.tsx''
   \<and> outfile (buildOne ''/home/dev/app'' (outputDir demoConfig) (buildTargetFileSuffix demoConfig)
               ''src/pages/user/register.page.tsx'') = ''public/js/register.page.js''
   \<and> outputPath (registryEntry ''/home/dev/app'' demoConfig ''src/pages/user/register.page.tsx'')
       = ''public/js/src/pages/user/register.page.js''
   \<and> outfile (buildOne ''/home/dev/app'' (outputDir demoConfig) (buildTargetFileSuffix demoConfig)
               ''src/pages/user/register.page.tsx'')
       \<noteq> outputPath (registryEntry ''/home/dev/app'' demoConfig ''src/pages/user/register.page.tsx'')
   \<and> outfile (buildOne ''/home/dev/app'' (outputDir demoConfig) (buildTargetFileSuffix demoConfig)
               ''src/pages/user/register.page.tsx'')
       = outfile (buildOne ''/home/dev/app'' (outputDir demoConfig) (buildTargetFileSuffix demoConfig)
               ''src/pages/video/register.page.tsx'')"
proof -
  have h1: "relative ''/home/dev/app'' ''.'' ''src/pages/user/register.page.tsx''
     = ''src/pages/user'' @ ''/'' @ basename ''src/pages/user/register.page.tsx''"
    by (simp add: relative_def resolve_def isSep_def basename_def)
  have h2: "endsWith (basename ''src/pages/user/register.page.tsx'') (buildTargetFileSuffix demoConfig)"
    by (simp add: demoConfig_def basename_def isSep_def endsWith_def suffix_to_prefix)
  have h3: "basename ''src/pages/user/register.page.tsx'' = basename ''src/pages/video/register.page.tsx''"
    by (simp add: basename_def isSep_def)
  have v1: "outfile (buildOne ''/home/dev/app'' (outputDir demoConfig) (buildTargetFileSuffix demoConfig)
               ''src/pages/user/register.page.tsx'') = ''public/js/register.page.js''"
    by (simp add: buildOne_def toOutFile_def demoConfig_def basename_def isSep_def)
  have v2: "outputPath (registryEntry ''/home/dev/app'' demoConfig ''src/pages/user/register.page.tsx'')
       = ''public/js/src/pages/user/register.page.js''"
    by (simp add: registryEntry_def toScriptPath_def demoConfig_def relative_def resolve_def isSep_def)
  note t = bundle_written_to_flat_path
         [of "''/home/dev/app''" demoConfig "''src/pages/user/register.page.tsx''"
             "''src/pages/user''" "''src/pages/video/register.page.tsx''"]
  from t h1 h2 have c1: "outfile (buildOne ''/home/dev/app'' (outputDir demoConfig) (buildTargetFileSuffix demoConfig)
               ''src/pages/user/register.page.tsx'')
       \<noteq> outputPath (registryEntry ''/home/dev/app'' demoConfig ''src/pages/user/register.page.tsx'')"
    by blast
  from t h3 have c2: "outfile (buildOne ''/home/dev/app'' (outputDir demoConfig) (buildTargetFileSuffix demoConfig)
               ''src/pages/user/register.page.tsx'')
       = outfile (buildOne ''/home/dev/app'' (outputDir demoConfig) (buildTargetFileSuffix demoConfig)
               ''src/pages/video/register.page.tsx'')"
    by blast
  from h1 h2 h3 v1 v2 c1 c2 show ?thesis by (intro conjI)
qed

section \<open>The registry round trip\<close>

subsection \<open>Strings\<close>

lemma units_eq_iff [simp]: "units a = units b \<longleftrightarrow> a = b"
  unfolding units_def by (simp add: inj_on_def)

lemma units_Nil [simp]: "units [] = []" "units s = [] \<longleftrightarrow> s = []"
  by (simp_all add: units_def)

lemma units_append: "units (a @ b) = units a @ units b"
  by (simp add: units_def)

lemma units_Cons: "units (c # s) = of_char c # units s"
  by (simp add: units_def)

lemma hexVal_hexDigit: "k < 16 \<Longrightarrow> hexVal (hexDigit k) = Some k"
proof -
  assume "k < 16"
  then consider "k = 0" | "k = 1" | "k = 2" | "k = 3" | "k = 4" | "k = 5" | "k = 6" | "k = 7"
    | "k = 8" | "k = 9" | "k = 10" | "k = 11" | "k = 12" | "k = 13" | "k = 14" | "k = 15"
    by atomize_elim arith
  then show ?thesis
    by cases (simp_all add: hexVal_def hexDigit_def)
qed

lemma hex4_control:
  assumes "(of_char c :: nat) < 32"
  shows "hex4 (CHR ''0'') (CHR ''0'') (hexDigit ((of_char c :: nat) div 16))
           (hexDigit ((of_char c :: nat) mod 16)) = Some (of_char c)"
proof -
  let ?n = "of_char c :: nat"
  have z: "hexVal (CHR ''0'') = Some 0" by (simp add: hexVal_def)
  have hi: "hexVal (hexDigit (?n div 16)) = Some (?n div 16)"
    using assms by (intro hexVal_hexDigit) simp
  have lo: "hexVal (hexDigit (?n mod 16)) = Some (?n mod 16)"
    by (intro hexVal_hexDigit) simp
  have "?n div 16 * 16 + ?n mod 16 = ?n" by simp
  then show ?thesis
    by (simp add: hex4_def z hi lo)
qed

lemma scan_escapeChar:
  "scan (InString acc) toks (escapeChar c @ rest) = scan (InString (of_char c # acc)) toks rest"
proof -
  consider "c = CHR 0x22" | "c = CHR 0x5C" | "c = CHR 0x08" | "c = CHR 0x0C" | "c = CHR 0x0A"
    | "c = CHR 0x0D" | "c = CHR 0x09"
    | "c \<noteq> CHR 0x22" "c \<noteq> CHR 0x5C" "c \<noteq> CHR 0x08" "c \<noteq> CHR 0x0C" "c \<noteq> CHR 0x0A"
      "c \<noteq> CHR 0x0D" "c \<noteq> CHR 0x09" "(of_char c :: nat) < 32"
    | "c \<noteq> CHR 0x22" "c \<noteq> CHR 0x5C" "c \<noteq> CHR 0x08" "c \<noteq> CHR 0x0C" "c \<noteq> CHR 0x0A"
      "c \<noteq> CHR 0x0D" "c \<noteq> CHR 0x09" "\<not> (of_char c :: nat) < 32"
    by blast
  then show ?thesis
  proof cases
    case 8
    then show ?thesis
      by (simp add: escapeChar_def hex4_control)
  next
    case 9
    then show ?thesis
      by (simp add: escapeChar_def)
  qed (simp_all add: escapeChar_def unescape_def)
qed

lemma scan_chars:
  "scan (InString acc) toks (concat (map escapeChar s) @ CHR 0x22 # rest)
     = scan Between (Str (rev acc @ units s) # toks) rest"
proof (induction s arbitrary: acc)
  case Nil
  then show ?case by simp
next
  case (Cons c s)
  have "scan (InString acc) toks (concat (map escapeChar (c # s)) @ CHR 0x22 # rest)
      = scan (InString acc) toks (escapeChar c @ (concat (map escapeChar s) @ CHR 0x22 # rest))"
    by simp
  also have "\<dots> = scan (InString (of_char c # acc)) toks (concat (map escapeChar s) @ CHR 0x22 # rest)"
    by (rule scan_escapeChar)
  also have "\<dots> = scan Between (Str (rev (of_char c # acc) @ units s) # toks) rest"
    by (rule Cons.IH)
  finally show ?case by (simp add: units_Cons)
qed

lemma scan_quoted:
  "scan Between toks (quoteJSONString s @ rest) = scan Between (Str (units s) # toks) rest"
  using scan_chars[of "[]" toks s rest]
  by (simp add: quoteJSONString_def isWhitespace_def punctuation_def)

subsection \<open>Tokens\<close>

text \<open>The tokens of a serialised registry: of an entry, of a member, of the members that follow.\<close>

definition objectTokens :: "entry \<Rightarrow> token list" where
  "objectTokens e =
     [LBrace,
      Str (units ''scriptFileName''), Colon, Str (units (scriptFileName e)), Comma,
      Str (units ''originalPath''), Colon, Str (units (originalPath e)), Comma,
      Str (units ''outputPath''), Colon, Str (units (outputPath e)), RBrace]"

definition entryTokens :: "string \<times> entry \<Rightarrow> token list" where
  "entryTokens ke = Str (units (fst ke)) # Colon # objectTokens (snd ke)"

fun memberTokens :: "ComponentMetadata \<Rightarrow> token list" where
  "memberTokens [] = [RBrace]"
| "memberTokens (ke # m) = Comma # entryTokens ke @ memberTokens m"

lemma scan_entry:
  "scan Between toks (stringifyEntry ke @ rest) = scan Between (rev (entryTokens ke) @ toks) rest"
  by (simp add: stringifyEntry_def entryTokens_def objectTokens_def scan_quoted isWhitespace_def
      punctuation_def)

lemma scan_members:
  "scan Between toks
     (stringifyEntry ke @ concat (map (\<lambda>x. '','' @ [CHR 0x0A] @ stringifyEntry x) m)
        @ [CHR 0x0A] @ ''}'')
     = Some (rev toks @ entryTokens ke @ memberTokens m)"
proof (induction m arbitrary: toks ke)
  case Nil
  show ?case
    by (simp add: scan_entry) (simp add: isWhitespace_def punctuation_def)
next
  case (Cons ke' m)
  have "scan Between toks
     (stringifyEntry ke @ concat (map (\<lambda>x. '','' @ [CHR 0x0A] @ stringifyEntry x) (ke' # m))
        @ [CHR 0x0A] @ ''}'')
     = scan Between (rev (entryTokens ke) @ toks)
        (CHR '','' # CHR 0x0A # stringifyEntry ke' @
           concat (map (\<lambda>x. '','' @ [CHR 0x0A] @ stringifyEntry x) m) @ [CHR 0x0A] @ ''}'')"
    by (simp add: scan_entry)
  also have "\<dots> = scan Between (Comma # rev (entryTokens ke) @ toks)
        (stringifyEntry ke' @
           concat (map (\<lambda>x. '','' @ [CHR 0x0A] @ stringifyEntry x) m) @ [CHR 0x0A] @ ''}'')"
    by (simp add: isWhitespace_def punctuation_def)
  also have "\<dots> = Some (rev (Comma # rev (entryTokens ke) @ toks) @ entryTokens ke' @ memberTokens m)"
    by (rule Cons.IH)
  finally show ?case by simp
qed

lemma joinWith_Cons:
  "joinWith sep (x # xs) = x @ concat (map (\<lambda>y. sep @ y) xs)"
  by (induction xs arbitrary: x) simp_all

lemma scan_stringify:
  "scan Between [] (JSON_stringify m)
     = Some (case m of [] \<Rightarrow> [LBrace, RBrace] | ke # m' \<Rightarrow> LBrace # entryTokens ke @ memberTokens m')"
proof (cases m)
  case Nil
  then show ?thesis by (simp add: JSON_stringify_def isWhitespace_def punctuation_def)
next
  case (Cons ke m')
  have "scan Between [] (JSON_stringify m)
      = scan Between [LBrace]
          (stringifyEntry ke @ concat (map (\<lambda>x. '','' @ [CHR 0x0A] @ stringifyEntry x) m')
             @ [CHR 0x0A] @ ''}'')"
    using Cons by (simp add: JSON_stringify_def isWhitespace_def punctuation_def joinWith_Cons comp_def)
  also have "\<dots> = Some (rev [LBrace] @ entryTokens ke @ memberTokens m')"
    by (rule scan_members)
  finally show ?thesis using Cons by simp
qed


subsection \<open>Members\<close>

lemma update_fresh: "k \<notin> fst ` set al \<Longrightarrow> AList.update k v al = al @ [(k, v)]"
  by (induction al) auto

lemma parseValue_object:
  "parseValue stack (objectTokens e @ rest) = plug stack (entryValue e) rest"
  by (simp add: objectTokens_def entryValue_def)

lemma plug_members:
  "distinct (map fst kvs @ k # map (\<lambda>ke. units (fst ke)) m) \<Longrightarrow>
   plug [InObject kvs k] v (memberTokens m)
     = Some (JObject (kvs @ (k, v) # map (\<lambda>ke. (units (fst ke), entryValue (snd ke))) m))"
proof (induction m arbitrary: kvs k v)
  case Nil
  then have "k \<notin> fst ` set kvs" by auto
  then show ?case by (simp add: update_fresh)
next
  case (Cons ke m)
  from Cons.prems have fresh: "k \<notin> fst ` set kvs" by auto
  from Cons.prems
  have d: "distinct (map fst (kvs @ [(k, v)]) @ units (fst ke) # map (\<lambda>ke. units (fst ke)) m)"
    by auto
  have "plug [InObject kvs k] v (memberTokens (ke # m))
      = parseValue [InObject (kvs @ [(k, v)]) (units (fst ke))]
          (objectTokens (snd ke) @ memberTokens m)"
    using fresh by (simp add: entryTokens_def update_fresh)
  also have "\<dots> = plug [InObject (kvs @ [(k, v)]) (units (fst ke))] (entryValue (snd ke))
          (memberTokens m)"
    by (rule parseValue_object)
  also have "\<dots> = Some (JObject ((kvs @ [(k, v)]) @ (units (fst ke), entryValue (snd ke))
                        # map (\<lambda>ke. (units (fst ke), entryValue (snd ke))) m))"
    using d by (rule Cons.IH)
  finally show ?case by simp
qed

lemma distinct_units:
  "distinct (map fst (m :: ComponentMetadata)) \<Longrightarrow> distinct (map (\<lambda>ke. units (fst ke)) m)"
  by (induction m) force+

lemma JSON_parse_stringify:
  assumes "distinct (map fst m)"
  shows "JSON_parse (JSON_stringify m) = Some (metadataValue m)"
proof (cases m)
  case Nil
  then show ?thesis by (simp add: JSON_parse_def scan_stringify metadataValue_def)
next
  case (Cons ke m')
  from assms Cons have d: "distinct (map fst [] @ units (fst ke) # map (\<lambda>ke. units (fst ke)) m')"
    using distinct_units[of m] by simp
  have "JSON_parse (JSON_stringify m)
      = parseValue [InObject [] (units (fst ke))] (objectTokens (snd ke) @ memberTokens m')"
    using Cons by (simp add: JSON_parse_def scan_stringify entryTokens_def)
  also have "\<dots> = plug [InObject [] (units (fst ke))] (entryValue (snd ke)) (memberTokens m')"
    by (rule parseValue_object)
  also have "\<dots> = Some (JObject ([] @ (units (fst ke), entryValue (snd ke))
                        # map (\<lambda>ke. (units (fst ke), entryValue (snd ke))) m'))"
    using d by (rule plug_members)
  finally show ?thesis using Cons by (simp add: metadataValue_def)
qed


text \<open>
  The value of a registry determines the registry, and its properties are the entries.
\<close>

lemma metadataValue_inj: "metadataValue m = metadataValue m' \<Longrightarrow> m = m'"
proof -
  have e: "entryValue a = entryValue b \<Longrightarrow> a = b" for a b
    by (cases a; cases b) (simp add: entryValue_def)
  assume "metadataValue m = metadataValue m'"
  then have "map (\<lambda>ke. (units (fst ke), entryValue (snd ke))) m
      = map (\<lambda>ke. (units (fst ke), entryValue (snd ke))) m'"
    by (simp add: metadataValue_def)
  then show ?thesis
  proof (induction m arbitrary: m')
    case Nil
    then show ?case by simp
  next
    case (Cons x xs)
    then obtain y ys where m': "m' = y # ys" by (cases m') auto
    with Cons.prems have "units (fst x) = units (fst y)" "entryValue (snd x) = entryValue (snd y)"
      and r: "map (\<lambda>ke. (units (fst ke), entryValue (snd ke))) xs
            = map (\<lambda>ke. (units (fst ke), entryValue (snd ke))) ys"
      by simp_all
    then have "x = y" using e by (simp add: prod_eq_iff)
    with Cons.IH[OF r] m' show ?case by simp
  qed
qed

lemma map_of_metadataValue:
  "map_of (map (\<lambda>ke. (units (fst ke), entryValue (snd ke))) m) (units k)
     = map_option entryValue (map_of m k)"
  by (induction m) auto

lemma loadMetadata_written:
  assumes "readFile fs path = Inr (JSON_stringify m)" "distinct (map fst m)"
  shows "loadMetadata fs path = metadataValue m"
  using assms by (simp add: loadMetadata_def JSON_parse_stringify)

subsection \<open>C10: writing the registry and loading it back\<close>

text \<open>A successful \<^verbatim>\<open>generateMetadataFile\<close> leaves the serialised registry at the path.\<close>

lemma generateMetadataFile_written:
  assumes "generateMetadataFile fs m path = Inr fs'"
  shows "readFile fs' path = Inr (JSON_stringify m)"
proof -
  from assms have "writeFile fs path (JSON_stringify m) = Inr fs'"
    by (simp add: generateMetadataFile_def mkdir_def Let_def split: if_splits)
  then have "fs' = fs\<lparr>files := AList.update path (JSON_stringify m) (files fs)\<rparr>"
    by (simp add: writeFile_def split: if_splits)
  then show ?thesis
    by (simp add: readFile_def update_conv')
qed

text \<open>
  C10. For every metadata mapping (a dictionary: every key once), when
  \<^verbatim>\<open>generateMetadataFile\<close> has written it to a path, \<^verbatim>\<open>loadMetadata\<close> of that path
  gives the same mapping back: the loaded value is the value of the mapping, the object
  with the same keys in the same order and, under each key, the three fields of its entry;
  and two mappings with the same value are the same mapping.
\<close>

theorem registry_round_trip:
  assumes "distinct (map fst m)"
      and "generateMetadataFile fs m path = Inr fs'"
  shows "loadMetadata fs' path = metadataValue m \<and> inj metadataValue"
proof
  from assms(2) have "readFile fs' path = Inr (JSON_stringify m)"
    by (rule generateMetadataFile_written)
  then show "loadMetadata fs' path = metadataValue m"
    using assms(1) by (rule loadMetadata_written)
  show "inj metadataValue"
    by (rule injI) (rule metadataValue_inj)
qed

theorem registry_round_trip_witness:
  "distinct (map fst [(''RegisterPage'', demoEntry)])
   \<and> generateMetadataFile \<lparr> files = [], blocked = [] \<rparr> [(''RegisterPage'', demoEntry)]
        ''build/metadata.json'' = Inr demoDisk
   \<and> loadMetadata demoDisk ''build/metadata.json'' = metadataValue [(''RegisterPage'', demoEntry)]"
proof -
  have h1: "distinct (map fst [(''RegisterPage'', demoEntry)])" by simp
  have h2: "generateMetadataFile \<lparr> files = [], blocked = [] \<rparr> [(''RegisterPage'', demoEntry)]
        ''build/metadata.json'' = Inr demoDisk"
    by (simp add: generateMetadataFile_def mkdir_def writeFile_def demoDisk_def)
  from registry_round_trip[OF h1 h2] h1 h2 show ?thesis by simp
qed

section \<open>Properties of the runtime lookup\<close>

subsection \<open>Looking up a registry that the build wrote\<close>

lemma readProperty_metadataValue:
  "readProperty builtins (metadataValue m) key
     = Inr (case map_of m key of Some e \<Rightarrow> Data (entryValue e) | None \<Rightarrow> inherited [] key)"
  by (simp add: readProperty_def metadataValue_def map_of_metadataValue split: option.splits)

lemma readProperty_entryValue:
  "readProperty builtins (entryValue e) ''scriptFileName''
     = Inr (Data (JString (units (scriptFileName e))))"
  by (simp add: readProperty_def entryValue_def)

lemma jsTruthy_entryValue: "jsTruthy (entryValue e)"
  by (simp add: entryValue_def)

lemma loadMetadata_demoDisk:
  "loadMetadata demoDisk ''build/metadata.json'' = metadataValue [(''RegisterPage'', demoEntry)]"
  by (rule loadMetadata_written) (simp_all add: readFile_def demoDisk_def)

subsection \<open>Documents that the build did not write\<close>

text \<open>The definitions that the evaluation of an example unfolds.\<close>

lemmas json_eval =
  JSON_parse_def loadMetadata_def readFile_def resolveScriptPath_def readProperty_def
  inherited_def objectPrototypeKeys_def scan_quoted isWhitespace_def punctuation_def
  numberValue_def fractionPart_def exponentPart_def isDigit_def isNumberChar_def decimal_def
  isZero_def hex4_def hexVal_def unescape_def arrayIndex_def document_def Let_def

text \<open>
  An entry with a member more than the three, or with \<^verbatim>\<open>scriptFileName\<close> alone, is
  found, and its \<^verbatim>\<open>scriptFileName\<close> is returned, whatever it is.
\<close>

lemma resolveScriptPath_extra_member:
  "resolveScriptPath builtins
     (document (''{'' @ quoteJSONString ''APage'' @ '': {'' @ quoteJSONString ''scriptFileName'' @
         '': '' @ quoteJSONString ''a.js'' @ '', '' @ quoteJSONString ''size'' @ '': 12.5e1}}''))
     ''APage'' ''build/metadata.json''
   = Inr (Data (JString (units ''a.js'')))"
  by (simp add: json_eval)

lemma resolveScriptPath_one_member:
  "resolveScriptPath builtins
     (document (''{'' @ quoteJSONString ''APage'' @ '': {'' @ quoteJSONString ''scriptFileName'' @
         '': '' @ quoteJSONString ''a.js'' @ ''}}''))
     ''APage'' ''build/metadata.json''
   = Inr (Data (JString (units ''a.js'')))"
  by (simp add: json_eval)

lemma resolveScriptPath_number_member:
  "resolveScriptPath builtins
     (document (''{'' @ quoteJSONString ''APage'' @ '': {'' @ quoteJSONString ''scriptFileName'' @
         '': -7}}''))
     ''APage'' ''build/metadata.json''
   = Inr (Data (JNumber (- 7) 0))"
  by (simp add: json_eval)

text \<open>An escape gives a code unit above the 8-bit ones.\<close>

lemma resolveScriptPath_escape:
  "resolveScriptPath builtins
     (document (''{'' @ quoteJSONString ''APage'' @ '': {'' @ quoteJSONString ''scriptFileName'' @
         '': '' @ [CHR 0x22, CHR 0x5C] @ ''u0416.js'' @ [CHR 0x22] @ ''}}''))
     ''APage'' ''build/metadata.json''
   = Inr (Data (JString (0x416 # units ''.js'')))"
  by (simp add: json_eval units_def)

text \<open>
  An entry that is an object without \<^verbatim>\<open>scriptFileName\<close>, or a string, gives
  \<^verbatim>\<open>undefined\<close>.
\<close>

lemma resolveScriptPath_empty_entry:
  "resolveScriptPath builtins (document (''{'' @ quoteJSONString ''APage'' @ '': {}}''))
     ''APage'' ''build/metadata.json''
   = Inr Absent"
  by (simp add: json_eval)

lemma resolveScriptPath_string_entry:
  "resolveScriptPath demoBuiltins
     (document (''{'' @ quoteJSONString ''APage'' @ '': '' @ quoteJSONString ''a.js'' @ ''}''))
     ''APage'' ''build/metadata.json''
   = Inr Absent"
  by (simp add: json_eval demoBuiltins_def units_def)

text \<open>
  A key whose value is falsy counts as missing; the document \<^verbatim>\<open>null\<close> makes the lookup
  throw a \<^verbatim>\<open>TypeError\<close>; a text that is not JSON is an empty registry.
\<close>

lemma resolveScriptPath_falsy_entry:
  "resolveScriptPath builtins (document (''{'' @ quoteJSONString ''APage'' @ '': 0.0}''))
     ''APage'' ''build/metadata.json''
   = Inl (MetadataNotFound ''APage'')"
  by (simp add: json_eval)

lemma resolveScriptPath_null_document:
  "resolveScriptPath builtins (document ''null'') ''APage'' ''build/metadata.json''
     = Inl (TypeError ''APage'')"
  by (simp add: json_eval)

lemma resolveScriptPath_not_json:
  "resolveScriptPath builtins (document ''{APage: 1}'') ''APage'' ''build/metadata.json''
     = Inl (MetadataNotFound ''APage'')"
  by (simp add: json_eval)

text \<open>The elements of an array are found under their indices.\<close>

lemma resolveScriptPath_array_document:
  "resolveScriptPath demoBuiltins
     (document (''[{'' @ quoteJSONString ''scriptFileName'' @ '': '' @ quoteJSONString ''a.js'' @ ''}]''))
     ''0'' ''build/metadata.json''
   = Inr (Data (JString (units ''a.js'')))"
  by (simp add: json_eval)

subsection \<open>C1: the lookup is strict\<close>

text \<open>
  C1 (as amended). \<^verbatim>\<open>resolveScriptPath(componentName, metadataPath)\<close> has one behaviour
  and no strictness argument. The registry is the value that \<^verbatim>\<open>JSON.parse\<close> gives for
  the metadata file. When it is an object that has the component name as a key, with an
  object that has a \<^verbatim>\<open>scriptFileName\<close> as the value, the lookup returns that
  \<^verbatim>\<open>scriptFileName\<close> (and \<^verbatim>\<open>undefined\<close> when the object has none). When it is an object that does not have the component name as a key
  (and the name is not that of a property that every object inherits, such as
  \<^verbatim>\<open>constructor\<close>), or has it with a falsy value, the call fails with the error that
  names the component; there is no fallback to a file name guessed from the component name.
  When it is \<^verbatim>\<open>null\<close>, the call fails with a \<^verbatim>\<open>TypeError\<close>. A metadata file that cannot
  be read or is not JSON is an empty registry, so it leads to the failure that names the
  component and not to an I/O error. In particular, for the file that
  \<^verbatim>\<open>generateMetadataFile\<close> wrote for a registry: a component name that is a key of that
  registry gives the \<open>scriptFileName\<close> of its entry, and another name the failure.
\<close>

theorem resolveScriptPath_strict_only:
  "(loadMetadata fs path = JObject kvs
        \<and> map_of kvs (units componentName) = Some (JObject members)
        \<and> map_of members (units ''scriptFileName'') = Some s \<longrightarrow>
      resolveScriptPath builtins fs componentName path = Inr (Data s))
   \<and> (loadMetadata fs path = JObject kvs
        \<and> map_of kvs (units componentName) = Some (JObject members)
        \<and> map_of members (units ''scriptFileName'') = None \<longrightarrow>
      resolveScriptPath builtins fs componentName path = Inr Absent)
   \<and> (loadMetadata fs path = JObject kvs \<and> map_of kvs (units componentName) = None
        \<and> componentName \<notin> set objectPrototypeKeys \<longrightarrow>
      resolveScriptPath builtins fs componentName path = Inl (MetadataNotFound componentName))
   \<and> (loadMetadata fs path = JObject kvs \<and> map_of kvs (units componentName) = Some v
        \<and> \<not> jsTruthy v \<longrightarrow>
      resolveScriptPath builtins fs componentName path = Inl (MetadataNotFound componentName))
   \<and> (loadMetadata fs path = JNull \<longrightarrow>
      resolveScriptPath builtins fs componentName path = Inl (TypeError componentName))
   \<and> ((readFile fs path = Inl err \<or> (readFile fs path = Inr content \<and> JSON_parse content = None))
        \<and> componentName \<notin> set objectPrototypeKeys \<longrightarrow>
      resolveScriptPath builtins fs componentName path = Inl (MetadataNotFound componentName))
   \<and> (readFile fs path = Inr (JSON_stringify m) \<and> distinct (map fst m)
        \<and> map_of m componentName = Some e \<longrightarrow>
      resolveScriptPath builtins fs componentName path
        = Inr (Data (JString (units (scriptFileName e)))))
   \<and> (readFile fs path = Inr (JSON_stringify m) \<and> distinct (map fst m)
        \<and> map_of m componentName = None \<and> componentName \<notin> set objectPrototypeKeys \<longrightarrow>
      resolveScriptPath builtins fs componentName path = Inl (MetadataNotFound componentName))"
proof (intro conjI impI)
  assume "loadMetadata fs path = JObject kvs
      \<and> map_of kvs (units componentName) = Some (JObject members)
      \<and> map_of members (units ''scriptFileName'') = Some s"
  then show "resolveScriptPath builtins fs componentName path = Inr (Data s)"
    by (simp add: resolveScriptPath_def readProperty_def)
next
  assume "loadMetadata fs path = JObject kvs
      \<and> map_of kvs (units componentName) = Some (JObject members)
      \<and> map_of members (units ''scriptFileName'') = None"
  then show "resolveScriptPath builtins fs componentName path = Inr Absent"
    by (simp add: resolveScriptPath_def readProperty_def inherited_def objectPrototypeKeys_def)
next
  assume "loadMetadata fs path = JObject kvs \<and> map_of kvs (units componentName) = None
        \<and> componentName \<notin> set objectPrototypeKeys"
  then show "resolveScriptPath builtins fs componentName path = Inl (MetadataNotFound componentName)"
    by (simp add: resolveScriptPath_def readProperty_def inherited_def)
next
  assume "loadMetadata fs path = JObject kvs \<and> map_of kvs (units componentName) = Some v
        \<and> \<not> jsTruthy v"
  then show "resolveScriptPath builtins fs componentName path = Inl (MetadataNotFound componentName)"
    by (simp add: resolveScriptPath_def readProperty_def)
next
  assume "loadMetadata fs path = JNull"
  then show "resolveScriptPath builtins fs componentName path = Inl (TypeError componentName)"
    by (simp add: resolveScriptPath_def readProperty_def)
next
  assume a: "(readFile fs path = Inl err \<or> (readFile fs path = Inr content \<and> JSON_parse content = None))
        \<and> componentName \<notin> set objectPrototypeKeys"
  then have "loadMetadata fs path = JObject []"
    by (auto simp: loadMetadata_def)
  with a show "resolveScriptPath builtins fs componentName path = Inl (MetadataNotFound componentName)"
    by (simp add: resolveScriptPath_def readProperty_def inherited_def)
next
  assume a: "readFile fs path = Inr (JSON_stringify m) \<and> distinct (map fst m)
        \<and> map_of m componentName = Some e"
  then have "loadMetadata fs path = metadataValue m"
    by (simp add: loadMetadata_written)
  with a show "resolveScriptPath builtins fs componentName path
        = Inr (Data (JString (units (scriptFileName e))))"
    by (simp add: resolveScriptPath_def readProperty_metadataValue readProperty_entryValue
        jsTruthy_entryValue)
next
  assume a: "readFile fs path = Inr (JSON_stringify m) \<and> distinct (map fst m)
        \<and> map_of m componentName = None \<and> componentName \<notin> set objectPrototypeKeys"
  then have "loadMetadata fs path = metadataValue m"
    by (simp add: loadMetadata_written)
  with a show "resolveScriptPath builtins fs componentName path = Inl (MetadataNotFound componentName)"
    by (simp add: resolveScriptPath_def readProperty_metadataValue inherited_def)
qed

theorem resolveScriptPath_strict_only_witness:
  "readFile demoDisk ''build/metadata.json'' = Inr (JSON_stringify [(''RegisterPage'', demoEntry)])
   \<and> distinct (map fst [(''RegisterPage'', demoEntry)])
   \<and> map_of [(''RegisterPage'', demoEntry)] ''RegisterPage'' = Some demoEntry
   \<and> resolveScriptPath demoBuiltins demoDisk ''RegisterPage'' ''build/metadata.json''
       = Inr (Data (JString (units ''register.page.js'')))
   \<and> map_of [(''RegisterPage'', demoEntry)] ''GhostPage'' = None
   \<and> ''GhostPage'' \<notin> set objectPrototypeKeys
   \<and> resolveScriptPath demoBuiltins demoDisk ''GhostPage'' ''build/metadata.json''
       = Inl (MetadataNotFound ''GhostPage'')
   \<and> readFile demoDisk ''build/missing.json'' = Inl (IOError ''build/missing.json'')
   \<and> resolveScriptPath demoBuiltins demoDisk ''GhostPage'' ''build/missing.json''
       = Inl (MetadataNotFound ''GhostPage'')
   \<and> loadMetadata demoDocument ''build/metadata.json''
       = JObject [(units ''APage'', JObject [(units ''scriptFileName'', JString (units ''a.js''))]),
                  (units ''BPage'', JBool False),
                  (units ''CPage'', JObject [])]
   \<and> resolveScriptPath demoBuiltins demoDocument ''APage'' ''build/metadata.json''
       = Inr (Data (JString (units ''a.js'')))
   \<and> resolveScriptPath demoBuiltins demoDocument ''BPage'' ''build/metadata.json''
       = Inl (MetadataNotFound ''BPage'')
   \<and> resolveScriptPath demoBuiltins demoDocument ''CPage'' ''build/metadata.json''
       = Inr Absent
   \<and> resolveScriptPath demoBuiltins demoDocument ''GhostPage'' ''build/metadata.json''
       = Inl (MetadataNotFound ''GhostPage'')
   \<and> loadMetadata (document ''null'') ''build/metadata.json'' = JNull
   \<and> resolveScriptPath demoBuiltins (document ''null'') ''APage'' ''build/metadata.json''
       = Inl (TypeError ''APage'')"
proof -
  let ?kvs = "[(units ''APage'', JObject [(units ''scriptFileName'', JString (units ''a.js''))]),
               (units ''BPage'', JBool False),
               (units ''CPage'', JObject [])]"
  have h1: "readFile demoDisk ''build/metadata.json''
      = Inr (JSON_stringify [(''RegisterPage'', demoEntry)])"
    by (simp add: readFile_def demoDisk_def)
  have h2: "distinct (map fst [(''RegisterPage'', demoEntry)])" by simp
  have h3: "map_of [(''RegisterPage'', demoEntry)] ''RegisterPage'' = Some demoEntry" by simp
  have h4: "map_of [(''RegisterPage'', demoEntry)] ''GhostPage'' = None" by simp
  have h5: "''GhostPage'' \<notin> set objectPrototypeKeys"
    by (simp add: objectPrototypeKeys_def)
  have h6: "readFile demoDisk ''build/missing.json'' = Inl (IOError ''build/missing.json'')"
    by (simp add: readFile_def demoDisk_def)
  have h7: "loadMetadata demoDocument ''build/metadata.json'' = JObject ?kvs"
    by (simp add: demoDocument_def json_eval)
  have h8: "map_of ?kvs (units ''APage'')
      = Some (JObject [(units ''scriptFileName'', JString (units ''a.js''))])"
    "map_of [(units ''scriptFileName'', JString (units ''a.js''))] (units ''scriptFileName'')
      = Some (JString (units ''a.js''))"
    "map_of ?kvs (units ''BPage'') = Some (JBool False)" "\<not> jsTruthy (JBool False)"
    "map_of ?kvs (units ''CPage'') = Some (JObject [])"
    "map_of [] (units ''scriptFileName'') = (None :: jsvalue option)"
    "map_of ?kvs (units ''GhostPage'') = None"
    by simp_all
  have h9: "loadMetadata (document ''null'') ''build/metadata.json'' = JNull"
    by (simp add: json_eval)
  note t = resolveScriptPath_strict_only
  from t[where fs = demoDisk and path = "''build/metadata.json''"
           and componentName = "''RegisterPage''" and m = "[(''RegisterPage'', demoEntry)]"
           and e = demoEntry and builtins = demoBuiltins] h1 h2 h3
  have c1: "resolveScriptPath demoBuiltins demoDisk ''RegisterPage'' ''build/metadata.json''
       = Inr (Data (JString (units ''register.page.js'')))"
    by (simp add: demoEntry_def)
  from t[where fs = demoDisk and path = "''build/metadata.json''"
           and componentName = "''GhostPage''" and m = "[(''RegisterPage'', demoEntry)]"
           and builtins = demoBuiltins] h1 h2 h4 h5
  have c2: "resolveScriptPath demoBuiltins demoDisk ''GhostPage'' ''build/metadata.json''
       = Inl (MetadataNotFound ''GhostPage'')"
    by blast
  from t[where fs = demoDisk and path = "''build/missing.json''"
           and componentName = "''GhostPage''" and err = "IOError ''build/missing.json''"
           and builtins = demoBuiltins] h5 h6
  have c3: "resolveScriptPath demoBuiltins demoDisk ''GhostPage'' ''build/missing.json''
       = Inl (MetadataNotFound ''GhostPage'')"
    by blast
  from t[where fs = demoDocument and path = "''build/metadata.json''"
           and componentName = "''APage''" and kvs = ?kvs
           and members = "[(units ''scriptFileName'', JString (units ''a.js''))]"
           and s = "JString (units ''a.js'')" and builtins = demoBuiltins] h7 h8
  have c4: "resolveScriptPath demoBuiltins demoDocument ''APage'' ''build/metadata.json''
       = Inr (Data (JString (units ''a.js'')))"
    by blast
  from t[where fs = demoDocument and path = "''build/metadata.json''"
           and componentName = "''BPage''" and kvs = ?kvs and v = "JBool False"
           and builtins = demoBuiltins] h7 h8
  have c5: "resolveScriptPath demoBuiltins demoDocument ''BPage'' ''build/metadata.json''
       = Inl (MetadataNotFound ''BPage'')"
    by blast
  from t[where fs = demoDocument and path = "''build/metadata.json''"
           and componentName = "''CPage''" and kvs = ?kvs and members = "[]"
           and builtins = demoBuiltins] h7 h8
  have c6: "resolveScriptPath demoBuiltins demoDocument ''CPage'' ''build/metadata.json''
       = Inr Absent"
    by blast
  from t[where fs = demoDocument and path = "''build/metadata.json''"
           and componentName = "''GhostPage''" and kvs = ?kvs and builtins = demoBuiltins]
       h7 h8 h5
  have c7: "resolveScriptPath demoBuiltins demoDocument ''GhostPage'' ''build/metadata.json''
       = Inl (MetadataNotFound ''GhostPage'')"
    by blast
  from t[where fs = "document ''null''" and path = "''build/metadata.json''"
           and componentName = "''APage''" and builtins = demoBuiltins] h9
  have c8: "resolveScriptPath demoBuiltins (document ''null'') ''APage'' ''build/metadata.json''
       = Inl (TypeError ''APage'')"
    by blast
  from h1 h2 h3 c1 h4 h5 c2 h6 c3 h7 c4 c5 c6 c7 h9 c8 show ?thesis by (intro conjI)
qed

text \<open>
  C1 as stated fails in its non-strict half: the lookup takes no strictness flag, and for
  a component that the registry does not have, the call fails; no file name is returned.
\<close>

theorem resolveScriptPath_no_fallback_counterexample:
  "loadMetadata demoDisk ''build/metadata.json'' = metadataValue [(''RegisterPage'', demoEntry)]
   \<and> readProperty demoBuiltins (loadMetadata demoDisk ''build/metadata.json'') ''GhostPage''
       = Inr Absent
   \<and> resolveScriptPath demoBuiltins demoDisk ''GhostPage'' ''build/metadata.json''
       = Inl (MetadataNotFound ''GhostPage'')
   \<and> isl (resolveScriptPath demoBuiltins demoDisk ''GhostPage'' ''build/metadata.json'')"
  by (simp add: loadMetadata_demoDisk resolveScriptPath_def readProperty_metadataValue
      inherited_def objectPrototypeKeys_def)

text \<open>
  A name that every object inherits is found although the registry does not have it, and
  the lookup returns \<^verbatim>\<open>undefined\<close>.
\<close>

lemma resolveScriptPath_inherited:
  "resolveScriptPath builtins demoDisk ''constructor'' ''build/metadata.json'' = Inr Absent"
  by (simp add: loadMetadata_demoDisk resolveScriptPath_def readProperty_metadataValue
      inherited_def objectPrototypeKeys_def)

section \<open>Properties of the scan and the one-shot build\<close>

text \<open>
  Every entry that a scan records is the registry entry of one of the scanned files, under
  the component name of that file; of two files with the same component name the later one
  is recorded.
\<close>

lemma collectMetadata_snoc:
  "collectMetadata cwd cfg (fileList @ [file])
     = AList.update (extractComponentName file) (registryEntry cwd cfg file)
         (collectMetadata cwd cfg fileList)"
  by (simp add: collectMetadata_def)

lemma collectMetadata_entries:
  "map_of (collectMetadata cwd cfg fileList) k = Some e \<Longrightarrow>
   \<exists>file\<in>set fileList. k = extractComponentName file \<and> e = registryEntry cwd cfg file"
proof (induction fileList arbitrary: e rule: rev_induct)
  case Nil
  then show ?case by (simp add: collectMetadata_def)
next
  case (snoc x xs)
  then show ?case
    by (cases "k = extractComponentName x")
       (auto simp: collectMetadata_snoc update_conv')
qed

lemma collectMetadata_last_wins:
  "map_of (collectMetadata cwd cfg (fileList @ [file])) (extractComponentName file)
     = Some (registryEntry cwd cfg file)"
  by (simp add: collectMetadata_snoc update_conv')

lemma collectMetadata_distinct: "distinct (map fst (collectMetadata cwd cfg fileList))"
  by (induction fileList rule: rev_induct)
     (simp_all add: collectMetadata_def distinct_update)

text \<open>
  When the one-shot build succeeds, the metadata file holds the registry of the scan, and
  loading it gives that registry.
\<close>

lemma build_persists_scan:
  assumes "build cwd cfg dirents bundler fs = Inr fs'"
  shows "loadMetadata fs' (metadataPath cfg)
           = metadataValue (collectMetadata cwd cfg (readFiles dirents (buildTargetFileSuffix cfg)))"
proof -
  from assms
  have "generateMetadataFile fs
          (collectMetadata cwd cfg (readFiles dirents (buildTargetFileSuffix cfg)))
          (metadataPath cfg) = Inr fs'"
    by (simp add: build_def Let_def split: list.splits)
  then have "readFile fs' (metadataPath cfg)
      = Inr (JSON_stringify (collectMetadata cwd cfg
                               (readFiles dirents (buildTargetFileSuffix cfg))))"
    by (rule generateMetadataFile_written)
  then show ?thesis
    using collectMetadata_distinct by (rule loadMetadata_written)
qed

text \<open>The watch starts from the state \<open>watching\<close>, with the registry of the scan.\<close>

lemma watchBuild_starts:
  assumes "watchBuild cwd cfg dirents bundler fs = Inr st"
  shows "\<exists>fs'. build cwd cfg dirents bundler fs = Inr fs'
           \<and> st = watching (collectMetadata cwd cfg
                               (readFiles dirents (buildTargetFileSuffix cfg))) fs'"
  using assms by (auto simp: watchBuild_def Let_def split: sum.splits)

section \<open>Properties of the watch orchestrator\<close>

subsection \<open>What the pieces of a handler change\<close>

lemma held_finish [simp]: "held (finish f st) g = (g \<noteq> f \<and> held st g)"
  by (auto simp: held_def finish_def dispose_def update_conv')

lemma finish_frame [simp]:
  "metadata (finish f st) = metadata st" "disk (finish f st) = disk st"
  "inflight (finish f st) = inflight st" "bundles (finish f st) = bundles st"
  "bundlerCalls (finish f st) = bundlerCalls st" "removals (finish f st) = removals st"
  "rejections (finish f st) = rejections st"
  by (simp_all add: finish_def)

lemma held_throw [simp]: "held (throw e f st) g = (g \<noteq> f \<and> held st g)"
  by (simp add: throw_def) (simp add: held_def)

lemma throw_frame [simp]:
  "metadata (throw e f st) = metadata st" "disk (throw e f st) = disk st"
  "inflight (throw e f st) = inflight st" "bundles (throw e f st) = bundles st"
  "bundlerCalls (throw e f st) = bundlerCalls st" "removals (throw e f st) = removals st"
  "rejections (throw e f st) = rejections st @ [e]"
  by (simp_all add: throw_def)

lemma held_removeBundle [simp]: "held (removeBundle cfg f bs st) g = (g \<noteq> f \<and> held st g)"
  by (simp add: removeBundle_def Let_def split: sum.splits) (simp add: held_def)

lemma removeBundle_frame [simp]:
  "metadata (removeBundle cfg f bs st) = metadata st" "disk (removeBundle cfg f bs st) = disk st"
  "inflight (removeBundle cfg f bs st) = inflight st" "bundles (removeBundle cfg f bs st) = bundles st"
  "bundlerCalls (removeBundle cfg f bs st) = bundlerCalls st"
  by (simp_all add: removeBundle_def Let_def split: sum.splits)

lemma dropTask_frame [simp]:
  "metadata (dropTask i st) = metadata st" "disk (dropTask i st) = disk st"
  "inflight (dropTask i st) = take i (inflight st) @ drop (Suc i) (inflight st)"
  "bundles (dropTask i st) = bundles st" "lockMap (dropTask i st) = lockMap st"
  "bundlerCalls (dropTask i st) = bundlerCalls st" "rejections (dropTask i st) = rejections st"
  "held (dropTask i st) g = held st g"
  by (simp_all add: dropTask_def held_def)

lemma retask_frame [simp]:
  "metadata (retask i f k st) = metadata st" "disk (retask i f k st) = disk st"
  "inflight (retask i f k st) = (inflight st)[i := (f, k)]"
  "bundles (retask i f k st) = bundles st" "lockMap (retask i f k st) = lockMap st"
  "held (retask i f k st) g = held st g"
  by (simp_all add: retask_def held_def)

lemma lock_held: "fst (lock f (lockMap st)) = (\<not> held st f)"
  by (simp add: lock_def held_def)

lemma lock_acquired:
  "\<not> held st f \<Longrightarrow> snd (lock f (lockMap st)) = AList.update f True (lockMap st)"
  by (simp add: lock_def held_def)

text \<open>An event that takes the build branch changes neither the registry nor the disk.\<close>

lemma onEvent_build_branch_frame:
  assumes "inflight (onEvent cwd cfg eventType filename stats bundleStat st)
             = inflight st @ [(fileName, AwaitBuild)]"
  shows "metadata (onEvent cwd cfg eventType filename stats bundleStat st) = metadata st
         \<and> disk (onEvent cwd cfg eventType filename stats bundleStat st) = disk st"
  using assms
  by (cases filename; cases stats)
     (auto simp: onEvent_def Let_def isBuild_def split: if_splits)

subsection \<open>The lock and the handlers in flight\<close>

text \<open>
  The invariant of the lock map: no file name has two handlers in flight, and the lock of
  a file name is held exactly while a handler for it is in flight.
\<close>

definition lockInvariant :: "watcher \<Rightarrow> bool" where
  "lockInvariant st =
     (distinct (map fst (inflight st)) \<and> (\<forall>f. held st f = (f \<in> fst ` set (inflight st))))"

lemma held_lockMap_update:
  "held (st\<lparr>lockMap := AList.update f b (lockMap st)\<rparr>) g = (if g = f then b else held st g)"
  by (simp add: held_def update_conv')

lemma held_other_fields [simp]:
  "held (st\<lparr>metadata := m\<rparr>) g = held st g"
  "held (st\<lparr>inflight := ts\<rparr>) g = held st g"
  "held (st\<lparr>disk := d\<rparr>) g = held st g"
  "held (st\<lparr>bundlerCalls := cs\<rparr>) g = held st g"
  "held (st\<lparr>bundles := bs\<rparr>) g = held st g"
  by (simp_all add: held_def)

text \<open>
  What a step does to the handlers in flight and to the locks: nothing; or a handler for a
  free file name ran to its end; or one was added for a free file name, and its lock is
  taken; or the handler at \<open>i\<close> ended, and its lock is released; or the handler at
  \<open>i\<close> went on to its next \<^verbatim>\<open>await\<close>.
\<close>

definition sameLocks :: "watcher \<Rightarrow> watcher \<Rightarrow> bool" where
  "sameLocks st st' = (inflight st' = inflight st \<and> (\<forall>g. held st' g = held st g))"

definition started :: "string \<Rightarrow> continuation \<Rightarrow> watcher \<Rightarrow> watcher \<Rightarrow> bool" where
  "started f k st st' =
     (\<not> held st f \<and> inflight st' = inflight st @ [(f, k)]
      \<and> (\<forall>g. held st' g = (g = f \<or> held st g)))"

definition ended :: "nat \<Rightarrow> watcher \<Rightarrow> watcher \<Rightarrow> bool" where
  "ended i st st' =
     (i < length (inflight st)
      \<and> inflight st' = take i (inflight st) @ drop (Suc i) (inflight st)
      \<and> (\<forall>g. held st' g = (g \<noteq> fst (inflight st ! i) \<and> held st g)))"

definition resumed :: "nat \<Rightarrow> watcher \<Rightarrow> watcher \<Rightarrow> bool" where
  "resumed i st st' =
     (i < length (inflight st)
      \<and> (\<exists>k. inflight st' = (inflight st)[i := (fst (inflight st ! i), k)])
      \<and> (\<forall>g. held st' g = held st g))"

lemma onEvent_effect:
  "sameLocks st (onEvent cwd cfg eventType filename stats bundleStat st)
   \<or> (\<exists>f k. started f k st (onEvent cwd cfg eventType filename stats bundleStat st))"
proof (cases filename)
  case None
  then show ?thesis by (simp add: onEvent_def sameLocks_def)
next
  case (Some f)
  show ?thesis
  proof (cases "f = [] \<or> held st f")
    case True
    then show ?thesis using Some by (auto simp: onEvent_def sameLocks_def lock_held)
  next
    case False
    then have free: "\<not> held st f" and ne: "f \<noteq> []" by simp_all
    let ?st1 = "st\<lparr>lockMap := AList.update f True (lockMap st)\<rparr>"
    have h1: "held ?st1 g = (g = f \<or> held st g)" for g
      by (simp add: held_lockMap_update)
    have restored: "(g \<noteq> f \<and> held ?st1 g) = held st g" for g
      using free by (auto simp: h1)
    show ?thesis
      using Some ne free
      by (cases stats)
         (auto simp: onEvent_def Let_def lock_held lock_acquired sameLocks_def started_def
                     h1 restored)
  qed
qed

lemma onBuildSettled_effect:
  "sameLocks st (onBuildSettled cwd cfg i result st)
   \<or> ended i st (onBuildSettled cwd cfg i result st)
   \<or> resumed i st (onBuildSettled cwd cfg i result st)"
  by (cases result)
     (auto simp: onBuildSettled_def Let_def sameLocks_def ended_def resumed_def)

lemma onIoSettled_effect:
  "sameLocks st (onIoSettled cfg i bundleStat st)
   \<or> ended i st (onIoSettled cfg i bundleStat st)
   \<or> resumed i st (onIoSettled cfg i bundleStat st)"
  by (cases "snd (inflight st ! i)")
     (auto simp: onIoSettled_def Let_def sameLocks_def ended_def resumed_def
           split: sum.splits)

lemma invariant_sameLocks: "lockInvariant st \<Longrightarrow> sameLocks st st' \<Longrightarrow> lockInvariant st'"
  by (simp add: lockInvariant_def sameLocks_def)

lemma invariant_started: "lockInvariant st \<Longrightarrow> started f k st st' \<Longrightarrow> lockInvariant st'"
  by (auto simp: lockInvariant_def started_def)

lemma invariant_ended:
  assumes "lockInvariant st" "ended i st st'"
  shows "lockInvariant st'"
proof -
  let ?xs = "inflight st"
  from assms(2) have i: "i < length ?xs"
    and fl: "inflight st' = take i ?xs @ drop (Suc i) ?xs"
    and hd: "\<And>g. held st' g = (g \<noteq> fst (?xs ! i) \<and> held st g)"
    by (simp_all add: ended_def)
  have split: "?xs = take i ?xs @ ?xs ! i # drop (Suc i) ?xs"
    using i by (rule id_take_nth_drop)
  from assms(1) have d: "distinct (map fst ?xs)"
    and h: "\<And>g. held st g = (g \<in> fst ` set ?xs)"
    by (simp_all add: lockInvariant_def)
  let ?rest = "take i ?xs @ drop (Suc i) ?xs"
  from d have d': "distinct (map fst (take i ?xs) @ fst (?xs ! i) # map fst (drop (Suc i) ?xs))"
    by (subst (asm) split) simp
  then have dist: "distinct (map fst ?rest)" by auto
  have "fst ` set ?xs = fst ` set (take i ?xs @ ?xs ! i # drop (Suc i) ?xs)"
    using split by simp
  then have names: "fst ` set ?xs = insert (fst (?xs ! i)) (fst ` set ?rest)"
    by auto
  from d' have notin: "fst (?xs ! i) \<notin> fst ` set ?rest"
    by auto
  have "held st' g = (g \<in> fst ` set (inflight st'))" for g
  proof -
    have "held st' g = (g \<noteq> fst (?xs ! i) \<and> g \<in> fst ` set ?xs)"
      by (simp only: hd h)
    also have "\<dots> = (g \<in> fst ` set ?rest)"
      unfolding names using notin by blast
    finally show ?thesis by (simp only: fl)
  qed
  with dist fl show ?thesis by (simp add: lockInvariant_def)
qed

lemma invariant_resumed:
  assumes "lockInvariant st" "resumed i st st'"
  shows "lockInvariant st'"
proof -
  from assms(2) obtain k where i: "i < length (inflight st)"
    and fl: "inflight st' = (inflight st)[i := (fst (inflight st ! i), k)]"
    and hd: "\<And>g. held st' g = held st g"
    by (auto simp: resumed_def)
  have "map fst (inflight st') = (map fst (inflight st))[i := fst (inflight st ! i)]"
    by (simp add: fl map_update)
  also have "\<dots> = map fst (inflight st)"
    using i by (simp add: list_update_same_conv)
  finally have names: "map fst (inflight st') = map fst (inflight st)" .
  then have "fst ` set (inflight st') = fst ` set (inflight st)"
    by (metis set_map)
  with assms(1) names hd show ?thesis by (simp add: lockInvariant_def)
qed

lemma invariant_step: "lockInvariant st \<Longrightarrow> lockInvariant (step cwd cfg st a)"
proof (cases a)
  case (Event eventType filename stats bundleStat)
  assume "lockInvariant st"
  with onEvent_effect[of st cwd cfg eventType filename stats bundleStat] Event
  show ?thesis by (auto intro: invariant_sameLocks invariant_started)
next
  case (BuildSettled i result)
  assume "lockInvariant st"
  with onBuildSettled_effect[of st cwd cfg i result] BuildSettled
  show ?thesis by (auto intro: invariant_sameLocks invariant_ended invariant_resumed)
next
  case (IoSettled i bundleStat)
  assume "lockInvariant st"
  with onIoSettled_effect[of st cfg i bundleStat] IoSettled
  show ?thesis by (auto intro: invariant_sameLocks invariant_ended invariant_resumed)
qed

lemma invariant_watching: "lockInvariant (watching md fs)"
  by (simp add: lockInvariant_def watching_def held_def)

lemma invariant_run: "lockInvariant (run cwd cfg (watching md fs) acts)"
  unfolding run_def
  by (induction acts rule: rev_induct) (simp_all add: invariant_watching invariant_step)

text \<open>In particular, in every state reached after \<^verbatim>\<open>watchBuild\<close> has started the watch.\<close>

lemma invariant_watchBuild:
  assumes "watchBuild cwd cfg dirents bundler fs = Inr st"
  shows "lockInvariant (run cwd cfg st acts)"
  using watchBuild_starts[OF assms] invariant_run by auto

lemma name_not_in_rest:
  assumes "distinct (map fst xs)" "i < length xs"
  shows "fst (xs ! i) \<notin> fst ` set (take i xs @ drop (Suc i) xs)"
proof -
  have "xs = take i xs @ xs ! i # drop (Suc i) xs"
    using assms(2) by (rule id_take_nth_drop)
  with assms(1)
  have "distinct (map fst (take i xs) @ fst (xs ! i) # map fst (drop (Suc i) xs))"
    by (metis list.simps(9) map_append)
  then show ?thesis by auto
qed

subsection \<open>The ways out of a handler\<close>

text \<open>
  The lock of a file name is released when no handler for it is in flight and an event for
  it can take the lock.
\<close>

definition released :: "string \<Rightarrow> watcher \<Rightarrow> bool" where
  "released f st = (f \<notin> fst ` set (inflight st) \<and> fst (lock f (lockMap st)))"

lemma ended_released:
  assumes "lockInvariant st" "ended i st st'" "inflight st ! i = (f, k)"
  shows "released f st'"
proof -
  from assms(2) have i: "i < length (inflight st)"
    and fl: "inflight st' = take i (inflight st) @ drop (Suc i) (inflight st)"
    by (simp_all add: ended_def)
  from assms(1) have d: "distinct (map fst (inflight st))"
    by (simp add: lockInvariant_def)
  have "fst (inflight st ! i) \<notin> fst ` set (take i (inflight st) @ drop (Suc i) (inflight st))"
    using d i by (rule name_not_in_rest)
  with fl assms(3) have notin: "f \<notin> fst ` set (inflight st')" by simp
  have "lockInvariant st'"
    using assms(1,2) by (rule invariant_ended)
  then have "held st' f = (f \<in> fst ` set (inflight st'))"
    by (simp add: lockInvariant_def)
  with notin show ?thesis
    by (simp add: released_def lock_held)
qed

lemma removals_frame [simp]:
  "removals (dropTask i st) = removals st" "removals (retask i f k st) = removals st"
  by (simp_all add: dropTask_def retask_def)

text \<open>A build that settles never removes an entry of the registry, nor changes one.\<close>

lemma onBuildSettled_keeps_entries:
  assumes "map_of (metadata st) k = Some e"
  shows "map_of (metadata (onBuildSettled cwd cfg i result st)) k = Some e"
proof (cases "i < length (inflight st) \<and> snd (inflight st ! i) = AwaitBuild")
  case False
  then show ?thesis using assms by (auto simp: onBuildSettled_def)
next
  case True
  let ?name = "extractComponentName (join (buildTargetDir cfg) (fst (inflight st ! i)))"
  show ?thesis
  proof (cases "result = Rejected \<or> map_of (metadata st) ?name \<noteq> None")
    case True
    with \<open>i < length (inflight st) \<and> snd (inflight st ! i) = AwaitBuild\<close> assms show ?thesis
      by (auto simp: onBuildSettled_def Let_def truthy_componentName)
  next
    case False
    then have absent: "map_of (metadata st) ?name = None" and "result \<noteq> Rejected" by simp_all
    with assms have "k \<noteq> ?name" by auto
    with \<open>i < length (inflight st) \<and> snd (inflight st ! i) = AwaitBuild\<close> assms absent
      \<open>result \<noteq> Rejected\<close>
    show ?thesis
      by (simp add: onBuildSettled_def Let_def truthy_componentName update_conv')
  qed
qed

lemma onIoSettled_metadata: "metadata (onIoSettled cfg i bundleStat st) = metadata st"
  by (cases "snd (inflight st ! i)")
     (simp_all add: onIoSettled_def Let_def split: sum.splits)

text \<open>When \<^verbatim>\<open>writeFile\<close> has succeeded, the metadata file holds the text that was written.\<close>

lemma onIoSettled_disk:
  assumes "i < length (inflight st)" "inflight st ! i = (f, AwaitWrite removal content)"
      and "metadataPath cfg \<notin> set (blocked (disk st))"
  shows "readFile (disk (onIoSettled cfg i bundleStat st)) (metadataPath cfg) = Inr content"
  using assms
  by (simp add: onIoSettled_def Let_def writeFile_def readFile_def update_conv')

subsection \<open>C3: rename events\<close>

text \<open>
  C3 (as amended). The classification does not read the event type: an event, rename or
  change alike, for a path that stats as an entry other than a directory and whose name
  ends in the suffix takes the build branch. When the lock of the file name is free, the
  handler takes it, hands the file to the bundler and awaits the build. When the build
  succeeds and the component name of the file is not a key of the registry, the handler
  adds the entry of the file to the registry and goes on to write the metadata file.
\<close>

theorem event_type_not_classified:
  "isBuild eventType fileName IsFile sfx = endsWith fileName sfx
   \<and> (fileName \<noteq> [] \<and> \<not> held st fileName \<and> endsWith fileName (buildTargetFileSuffix cfg) \<longrightarrow>
      onEvent cwd cfg eventType (Some fileName) IsFile bundleStat st
        = st\<lparr>lockMap := AList.update fileName True (lockMap st),
             bundlerCalls := bundlerCalls st @
               [buildOne cwd (outputDir cfg) (buildTargetFileSuffix cfg)
                  (join (buildTargetDir cfg) fileName)],
             inflight := inflight st @ [(fileName, AwaitBuild)]\<rparr>)
   \<and> (i < length (inflight st') \<and> inflight st' ! i = (fileName, AwaitBuild)
        \<and> map_of (metadata st') (extractComponentName (join (buildTargetDir cfg) fileName))
            = None \<longrightarrow>
      metadata (onBuildSettled cwd cfg i Fulfilled st')
        = metadata st' @ [(extractComponentName (join (buildTargetDir cfg) fileName),
                           registryEntry cwd cfg (join (buildTargetDir cfg) fileName))]
      \<and> inflight (onBuildSettled cwd cfg i Fulfilled st')
          = (inflight st')[i := (fileName, AwaitMkdir False)])"
proof (intro conjI)
  show "isBuild eventType fileName IsFile sfx = endsWith fileName sfx"
    by (simp add: isBuild_def)
  show "fileName \<noteq> [] \<and> \<not> held st fileName \<and> endsWith fileName (buildTargetFileSuffix cfg) \<longrightarrow>
      onEvent cwd cfg eventType (Some fileName) IsFile bundleStat st
        = st\<lparr>lockMap := AList.update fileName True (lockMap st),
             bundlerCalls := bundlerCalls st @
               [buildOne cwd (outputDir cfg) (buildTargetFileSuffix cfg)
                  (join (buildTargetDir cfg) fileName)],
             inflight := inflight st @ [(fileName, AwaitBuild)]\<rparr>"
    by (simp add: isBuild_def onEvent_def Let_def lock_held lock_acquired)
  show "i < length (inflight st') \<and> inflight st' ! i = (fileName, AwaitBuild)
        \<and> map_of (metadata st') (extractComponentName (join (buildTargetDir cfg) fileName))
            = None \<longrightarrow>
      metadata (onBuildSettled cwd cfg i Fulfilled st')
        = metadata st' @ [(extractComponentName (join (buildTargetDir cfg) fileName),
                           registryEntry cwd cfg (join (buildTargetDir cfg) fileName))]
      \<and> inflight (onBuildSettled cwd cfg i Fulfilled st')
          = (inflight st')[i := (fileName, AwaitMkdir False)]"
  proof
    assume a: "i < length (inflight st') \<and> inflight st' ! i = (fileName, AwaitBuild)
        \<and> map_of (metadata st') (extractComponentName (join (buildTargetDir cfg) fileName))
            = None"
    then have "extractComponentName (join (buildTargetDir cfg) fileName) \<notin> fst ` set (metadata st')"
      by (simp add: map_of_eq_None_iff)
    with a show "metadata (onBuildSettled cwd cfg i Fulfilled st')
        = metadata st' @ [(extractComponentName (join (buildTargetDir cfg) fileName),
                           registryEntry cwd cfg (join (buildTargetDir cfg) fileName))]
      \<and> inflight (onBuildSettled cwd cfg i Fulfilled st')
          = (inflight st')[i := (fileName, AwaitMkdir False)]"
      by (simp add: onBuildSettled_def Let_def truthy_componentName update_fresh)
  qed
qed

theorem event_type_not_classified_witness:
  "''user/register.page.tsx'' \<noteq> [] \<and> \<not> held (watching [] demoDisk) ''user/register.page.tsx''
   \<and> endsWith ''user/register.page.tsx'' (buildTargetFileSuffix demoConfig)
   \<and> isBuild Rename ''user/register.page.tsx'' IsFile ''page.tsx''
   \<and> inflight (onEvent ''/home/dev/app'' demoConfig Rename (Some ''user/register.page.tsx'') IsFile NoEntry
                 (watching [] demoDisk)) = [(''user/register.page.tsx'', AwaitBuild)]
   \<and> map_of (metadata (onEvent ''/home/dev/app'' demoConfig Rename (Some ''user/register.page.tsx'')
                          IsFile NoEntry (watching [] demoDisk)))
        (extractComponentName (join (buildTargetDir demoConfig) ''user/register.page.tsx'')) = None
   \<and> metadata (onBuildSettled ''/home/dev/app'' demoConfig 0 Fulfilled
        (onEvent ''/home/dev/app'' demoConfig Rename (Some ''user/register.page.tsx'') IsFile NoEntry
           (watching [] demoDisk)))
       = [(''RegisterPage'', demoEntry)]
   \<and> inflight (onBuildSettled ''/home/dev/app'' demoConfig 0 Fulfilled
        (onEvent ''/home/dev/app'' demoConfig Rename (Some ''user/register.page.tsx'') IsFile NoEntry
           (watching [] demoDisk)))
       = [(''user/register.page.tsx'', AwaitMkdir False)]"
proof -
  let ?st1 = "onEvent ''/home/dev/app'' demoConfig Rename (Some ''user/register.page.tsx'') IsFile
                NoEntry (watching [] demoDisk)"
  have h: "''user/register.page.tsx'' \<noteq> [] \<and> \<not> held (watching [] demoDisk) ''user/register.page.tsx''
      \<and> endsWith ''user/register.page.tsx'' (buildTargetFileSuffix demoConfig)"
    by (simp add: held_def watching_def demoConfig_def demo_endsWith)
  note t = event_type_not_classified
      [where eventType = Rename and fileName = "''user/register.page.tsx''" and sfx = "''page.tsx''"
         and st = "watching [] demoDisk" and cfg = demoConfig and cwd = "''/home/dev/app''"
         and bundleStat = NoEntry and i = 0 and st' = ?st1]
  from t h have c1: "isBuild Rename ''user/register.page.tsx'' IsFile ''page.tsx''"
    by (simp add: demoConfig_def demo_endsWith)
  from t h have "?st1
        = (watching [] demoDisk)\<lparr>lockMap := AList.update ''user/register.page.tsx'' True
                                      (lockMap (watching [] demoDisk)),
             bundlerCalls := bundlerCalls (watching [] demoDisk) @
               [buildOne ''/home/dev/app'' (outputDir demoConfig) (buildTargetFileSuffix demoConfig)
                  (join (buildTargetDir demoConfig) ''user/register.page.tsx'')],
             inflight := inflight (watching [] demoDisk) @ [(''user/register.page.tsx'', AwaitBuild)]\<rparr>"
    by blast
  then have c2: "inflight ?st1 = [(''user/register.page.tsx'', AwaitBuild)]"
    and md: "metadata ?st1 = []"
    by (simp_all add: watching_def)
  have c3: "map_of (metadata ?st1)
      (extractComponentName (join (buildTargetDir demoConfig) ''user/register.page.tsx'')) = None"
    by (simp add: md)
  have "0 < length (inflight ?st1) \<and> inflight ?st1 ! 0 = (''user/register.page.tsx'', AwaitBuild)
      \<and> map_of (metadata ?st1)
          (extractComponentName (join (buildTargetDir demoConfig) ''user/register.page.tsx'')) = None"
    using c2 c3 by simp
  with t
  have "metadata (onBuildSettled ''/home/dev/app'' demoConfig 0 Fulfilled ?st1)
        = metadata ?st1 @ [(extractComponentName (join (buildTargetDir demoConfig) ''user/register.page.tsx''),
                           registryEntry ''/home/dev/app'' demoConfig
                             (join (buildTargetDir demoConfig) ''user/register.page.tsx''))]
      \<and> inflight (onBuildSettled ''/home/dev/app'' demoConfig 0 Fulfilled ?st1)
          = (inflight ?st1)[0 := (''user/register.page.tsx'', AwaitMkdir False)]"
    by blast
  then have c4: "metadata (onBuildSettled ''/home/dev/app'' demoConfig 0 Fulfilled ?st1)
        = [(''RegisterPage'', demoEntry)]"
    and c5: "inflight (onBuildSettled ''/home/dev/app'' demoConfig 0 Fulfilled ?st1)
        = [(''user/register.page.tsx'', AwaitMkdir False)]"
    by (simp_all add: md c2 demoConfig_fields demo_values)
  from h c1 c2 c3 c4 c5 show ?thesis by simp
qed

text \<open>
  C3 as stated fails: a rename event for the regular file \<^verbatim>\<open>user/register.page.tsx\<close> is
  classified as build-worthy, the bundler is invoked, and when the build succeeds the
  registry gets the entry \<^verbatim>\<open>RegisterPage\<close>.
\<close>

theorem rename_event_builds_counterexample:
  "isBuild Rename ''user/register.page.tsx'' IsFile ''page.tsx''
   \<and> bundlerCalls (onEvent ''/home/dev/app'' demoConfig Rename (Some ''user/register.page.tsx'') IsFile
                     NoEntry (watching [] demoDisk))
       = [\<lparr> importPath = ''./src/pages/user/register.page.tsx'', outfile = ''public/js/register.page.js'' \<rparr>]
   \<and> map fst (metadata (run ''/home/dev/app'' demoConfig (watching [] demoDisk)
                 [Event Rename (Some ''user/register.page.tsx'') IsFile NoEntry,
                  BuildSettled 0 Fulfilled]))
       = [''RegisterPage'']"
proof -
  have cfg: "buildTargetDir demoConfig = ''src/pages''" "buildTargetFileSuffix demoConfig = ''page.tsx''"
    "outputDir demoConfig = ''public/js''" "metadataPath demoConfig = ''build/metadata.json''"
    by (simp_all add: demoConfig_def)
  show ?thesis by (simp add: watch_eval cfg demo_values)
qed

subsection \<open>C7: a failed build\<close>

text \<open>
  C7. An event that takes the build branch leaves the registry and the disk as they are
  while it hands the file to the bundler; when the bundler rejects the build of the handler
  in flight, the registry and the disk (so the persisted metadata file) are unchanged, and
  the handler has ended: nothing of it stays in flight that could write later.
\<close>

theorem failed_build_not_recorded:
  "(inflight (onEvent cwd cfg eventType filename stats bundleStat st)
        = inflight st @ [(fileName, AwaitBuild)] \<longrightarrow>
      metadata (onEvent cwd cfg eventType filename stats bundleStat st) = metadata st
      \<and> disk (onEvent cwd cfg eventType filename stats bundleStat st) = disk st)
   \<and> (i < length (inflight st') \<and> inflight st' ! i = (fileName, AwaitBuild) \<longrightarrow>
      metadata (onBuildSettled cwd cfg i Rejected st') = metadata st'
      \<and> disk (onBuildSettled cwd cfg i Rejected st') = disk st'
      \<and> inflight (onBuildSettled cwd cfg i Rejected st')
          = take i (inflight st') @ drop (Suc i) (inflight st'))"
proof (rule conjI; rule impI)
  assume "inflight (onEvent cwd cfg eventType filename stats bundleStat st)
        = inflight st @ [(fileName, AwaitBuild)]"
  then show "metadata (onEvent cwd cfg eventType filename stats bundleStat st) = metadata st
      \<and> disk (onEvent cwd cfg eventType filename stats bundleStat st) = disk st"
    by (rule onEvent_build_branch_frame)
next
  assume "i < length (inflight st') \<and> inflight st' ! i = (fileName, AwaitBuild)"
  then show "metadata (onBuildSettled cwd cfg i Rejected st') = metadata st'
      \<and> disk (onBuildSettled cwd cfg i Rejected st') = disk st'
      \<and> inflight (onBuildSettled cwd cfg i Rejected st')
          = take i (inflight st') @ drop (Suc i) (inflight st')"
    by (simp add: onBuildSettled_def Let_def)
qed

theorem failed_build_not_recorded_witness:
  "inflight (onEvent ''/home/dev/app'' demoConfig Change (Some ''user/register.page.tsx'') IsFile
               NoEntry (watching [] demoDisk))
     = inflight (watching [] demoDisk) @ [(''user/register.page.tsx'', AwaitBuild)]
   \<and> metadata (run ''/home/dev/app'' demoConfig (watching [] demoDisk)
        [Event Change (Some ''user/register.page.tsx'') IsFile NoEntry, BuildSettled 0 Rejected])
       = []
   \<and> disk (run ''/home/dev/app'' demoConfig (watching [] demoDisk)
        [Event Change (Some ''user/register.page.tsx'') IsFile NoEntry, BuildSettled 0 Rejected])
       = demoDisk
   \<and> inflight (run ''/home/dev/app'' demoConfig (watching [] demoDisk)
        [Event Change (Some ''user/register.page.tsx'') IsFile NoEntry, BuildSettled 0 Rejected])
       = []"
proof -
  let ?st1 = "onEvent ''/home/dev/app'' demoConfig Change (Some ''user/register.page.tsx'') IsFile
               NoEntry (watching [] demoDisk)"
  have h1: "inflight ?st1
     = inflight (watching [] demoDisk) @ [(''user/register.page.tsx'', AwaitBuild)]"
    by (simp add: demo_eval)
  have h2: "0 < length (inflight ?st1) \<and> inflight ?st1 ! 0 = (''user/register.page.tsx'', AwaitBuild)"
    by (simp add: demo_eval)
  note t = failed_build_not_recorded
      [of "''/home/dev/app''" demoConfig Change "Some ''user/register.page.tsx''" IsFile NoEntry
          "watching [] demoDisk" "''user/register.page.tsx''" 0 ?st1]
  from t h1 have a: "metadata ?st1 = metadata (watching [] demoDisk)"
    "disk ?st1 = disk (watching [] demoDisk)" by blast+
  from t h2 have b: "metadata (onBuildSettled ''/home/dev/app'' demoConfig 0 Rejected ?st1) = metadata ?st1"
    "disk (onBuildSettled ''/home/dev/app'' demoConfig 0 Rejected ?st1) = disk ?st1"
    "inflight (onBuildSettled ''/home/dev/app'' demoConfig 0 Rejected ?st1)
       = take 0 (inflight ?st1) @ drop (Suc 0) (inflight ?st1)" by blast+
  have r: "run ''/home/dev/app'' demoConfig (watching [] demoDisk)
        [Event Change (Some ''user/register.page.tsx'') IsFile NoEntry, BuildSettled 0 Rejected]
      = onBuildSettled ''/home/dev/app'' demoConfig 0 Rejected ?st1"
    by (simp add: run_def)
  from a b h1 show ?thesis
    unfolding r by (simp add: watching_def)
qed

subsection \<open>C9: rebuilding a registered component\<close>

text \<open>
  C9. An event that takes the build branch leaves the registry and the disk as they are;
  when the build of the handler in flight succeeds and the component name of the file is a
  key of the registry, the registry is unchanged (so the entry keeps its three fields), the
  disk is unchanged and the handler has ended without asking for a write, while the bundle
  file has been written.
\<close>

theorem rebuild_keeps_registry_entry:
  "(inflight (onEvent cwd cfg eventType filename stats bundleStat st)
        = inflight st @ [(fileName, AwaitBuild)] \<longrightarrow>
      metadata (onEvent cwd cfg eventType filename stats bundleStat st) = metadata st
      \<and> disk (onEvent cwd cfg eventType filename stats bundleStat st) = disk st)
   \<and> (i < length (inflight st') \<and> inflight st' ! i = (fileName, AwaitBuild)
        \<and> map_of (metadata st') (extractComponentName (join (buildTargetDir cfg) fileName))
            = Some e \<longrightarrow>
      metadata (onBuildSettled cwd cfg i Fulfilled st') = metadata st'
      \<and> disk (onBuildSettled cwd cfg i Fulfilled st') = disk st'
      \<and> inflight (onBuildSettled cwd cfg i Fulfilled st')
          = take i (inflight st') @ drop (Suc i) (inflight st')
      \<and> bundles (onBuildSettled cwd cfg i Fulfilled st')
          = bundles st' @ [toOutFile (outputDir cfg) (join (buildTargetDir cfg) fileName)
                             (buildTargetFileSuffix cfg)])"
proof (rule conjI; rule impI)
  assume "inflight (onEvent cwd cfg eventType filename stats bundleStat st)
        = inflight st @ [(fileName, AwaitBuild)]"
  then show "metadata (onEvent cwd cfg eventType filename stats bundleStat st) = metadata st
      \<and> disk (onEvent cwd cfg eventType filename stats bundleStat st) = disk st"
    by (rule onEvent_build_branch_frame)
next
  assume "i < length (inflight st') \<and> inflight st' ! i = (fileName, AwaitBuild)
        \<and> map_of (metadata st') (extractComponentName (join (buildTargetDir cfg) fileName))
            = Some e"
  then show "metadata (onBuildSettled cwd cfg i Fulfilled st') = metadata st'
      \<and> disk (onBuildSettled cwd cfg i Fulfilled st') = disk st'
      \<and> inflight (onBuildSettled cwd cfg i Fulfilled st')
          = take i (inflight st') @ drop (Suc i) (inflight st')
      \<and> bundles (onBuildSettled cwd cfg i Fulfilled st')
          = bundles st' @ [toOutFile (outputDir cfg) (join (buildTargetDir cfg) fileName)
                             (buildTargetFileSuffix cfg)]"
    by (simp add: onBuildSettled_def Let_def getProperty_def truthy_def)
qed

theorem rebuild_keeps_registry_entry_witness:
  "inflight (onEvent ''/home/dev/app'' demoConfig Change (Some ''user/register.page.tsx'') IsFile
               NoEntry demoWatcher)
     = inflight demoWatcher @ [(''user/register.page.tsx'', AwaitBuild)]
   \<and> map_of (metadata demoWatcher)
        (extractComponentName (join (buildTargetDir demoConfig) ''user/register.page.tsx''))
       = Some demoEntry
   \<and> metadata (run ''/home/dev/app'' demoConfig demoWatcher
        [Event Change (Some ''user/register.page.tsx'') IsFile NoEntry, BuildSettled 0 Fulfilled])
       = [(''RegisterPage'', demoEntry)]
   \<and> disk (run ''/home/dev/app'' demoConfig demoWatcher
        [Event Change (Some ''user/register.page.tsx'') IsFile NoEntry, BuildSettled 0 Fulfilled])
       = demoDisk
   \<and> inflight (run ''/home/dev/app'' demoConfig demoWatcher
        [Event Change (Some ''user/register.page.tsx'') IsFile NoEntry, BuildSettled 0 Fulfilled])
       = []
   \<and> bundles (run ''/home/dev/app'' demoConfig demoWatcher
        [Event Change (Some ''user/register.page.tsx'') IsFile NoEntry, BuildSettled 0 Fulfilled])
       = [''public/js/register.page.js'']"
proof -
  let ?st1 = "onEvent ''/home/dev/app'' demoConfig Change (Some ''user/register.page.tsx'') IsFile
               NoEntry demoWatcher"
  have h1: "inflight ?st1 = inflight demoWatcher @ [(''user/register.page.tsx'', AwaitBuild)]"
    by (simp add: demo_eval)
  have h0: "map_of (metadata demoWatcher)
        (extractComponentName (join (buildTargetDir demoConfig) ''user/register.page.tsx''))
       = Some demoEntry"
    by (simp add: demo_eval)
  note t = rebuild_keeps_registry_entry
      [of "''/home/dev/app''" demoConfig Change "Some ''user/register.page.tsx''" IsFile NoEntry
          demoWatcher "''user/register.page.tsx''" 0 ?st1 demoEntry]
  from t h1 have a: "metadata ?st1 = metadata demoWatcher" "disk ?st1 = disk demoWatcher"
    by blast+
  have h2: "0 < length (inflight ?st1) \<and> inflight ?st1 ! 0 = (''user/register.page.tsx'', AwaitBuild)
        \<and> map_of (metadata ?st1)
            (extractComponentName (join (buildTargetDir demoConfig) ''user/register.page.tsx''))
            = Some demoEntry"
    using h0 a(1) by (simp add: h1) (simp add: demoWatcher_def watching_def)
  from t h2 have b: "metadata (onBuildSettled ''/home/dev/app'' demoConfig 0 Fulfilled ?st1) = metadata ?st1"
    "disk (onBuildSettled ''/home/dev/app'' demoConfig 0 Fulfilled ?st1) = disk ?st1"
    "inflight (onBuildSettled ''/home/dev/app'' demoConfig 0 Fulfilled ?st1)
       = take 0 (inflight ?st1) @ drop (Suc 0) (inflight ?st1)"
    "bundles (onBuildSettled ''/home/dev/app'' demoConfig 0 Fulfilled ?st1)
       = bundles ?st1 @ [toOutFile (outputDir demoConfig)
                           (join (buildTargetDir demoConfig) ''user/register.page.tsx'')
                           (buildTargetFileSuffix demoConfig)]" by blast+
  have r: "run ''/home/dev/app'' demoConfig demoWatcher
        [Event Change (Some ''user/register.page.tsx'') IsFile NoEntry, BuildSettled 0 Fulfilled]
      = onBuildSettled ''/home/dev/app'' demoConfig 0 Fulfilled ?st1"
    by (simp add: run_def)
  have bs: "bundles ?st1 = []" by (simp add: demo_eval)
  from a b h1 h0 bs show ?thesis
    unfolding r by (simp add: demoWatcher_def watching_def demoConfig_fields demo_values)
qed

subsection \<open>C2: an event for a file whose lock is held\<close>

text \<open>
  C2 (as amended). An event for a file name whose lock is held is dropped: the handler
  returns at once and the whole state is as before, so the registry entry is not removed
  and nothing is queued for later. In every state that the watcher reaches, when a rebuild
  of a file is in flight and the component of the file is registered, the lock of the file
  is held; a deletion event for the file that arrives then changes nothing, and when the
  build has settled, with success or with failure, the entry is in the registry as it was,
  the handler has ended, the lock is released and no removal of the bundle was requested:
  the deletion is lost. A build that settles never removes an entry, nor does a step inside
  \<^verbatim>\<open>generateMetadataFile\<close>. A deletion event for the file removes the entry from the
  registry when it arrives while the lock is free.
\<close>

theorem event_dropped_while_locked:
  "(held st fileName \<longrightarrow>
      onEvent cwd cfg eventType (Some fileName) stats bundleStat st = st)
   \<and> (st = run cwd cfg (watching md fs) acts
        \<and> i < length (inflight st) \<and> inflight st ! i = (fileName, AwaitBuild)
        \<and> map_of (metadata st) (extractComponentName (join (buildTargetDir cfg) fileName))
            = Some e \<longrightarrow>
      held st fileName
      \<and> run cwd cfg st [Event eventType (Some fileName) NoEntry bundleStat, BuildSettled i result]
          = onBuildSettled cwd cfg i result st
      \<and> map_of (metadata (onBuildSettled cwd cfg i result st))
          (extractComponentName (join (buildTargetDir cfg) fileName)) = Some e
      \<and> released fileName (onBuildSettled cwd cfg i result st)
      \<and> removals (onBuildSettled cwd cfg i result st) = removals st)
   \<and> (map_of (metadata st) k = Some e \<longrightarrow>
      map_of (metadata (onBuildSettled cwd cfg i result st)) k = Some e
      \<and> map_of (metadata (onIoSettled cfg i bundleStat st)) k = Some e)
   \<and> (fileName \<noteq> [] \<and> \<not> held st fileName \<and> endsWith fileName (buildTargetFileSuffix cfg)
        \<and> map_of (metadata st) (extractComponentName (join (buildTargetDir cfg) fileName))
            = Some e \<longrightarrow>
      map_of (metadata (onEvent cwd cfg eventType (Some fileName) NoEntry bundleStat st))
        (extractComponentName (join (buildTargetDir cfg) fileName)) = None)"
proof (intro conjI)
  show dropped: "held st fileName \<longrightarrow>
      onEvent cwd cfg eventType (Some fileName) stats bundleStat st = st" for stats
    by (simp add: onEvent_def lock_held)
  show "st = run cwd cfg (watching md fs) acts
        \<and> i < length (inflight st) \<and> inflight st ! i = (fileName, AwaitBuild)
        \<and> map_of (metadata st) (extractComponentName (join (buildTargetDir cfg) fileName))
            = Some e \<longrightarrow>
      held st fileName
      \<and> run cwd cfg st [Event eventType (Some fileName) NoEntry bundleStat, BuildSettled i result]
          = onBuildSettled cwd cfg i result st
      \<and> map_of (metadata (onBuildSettled cwd cfg i result st))
          (extractComponentName (join (buildTargetDir cfg) fileName)) = Some e
      \<and> released fileName (onBuildSettled cwd cfg i result st)
      \<and> removals (onBuildSettled cwd cfg i result st) = removals st"
  proof
    assume a: "st = run cwd cfg (watching md fs) acts
        \<and> i < length (inflight st) \<and> inflight st ! i = (fileName, AwaitBuild)
        \<and> map_of (metadata st) (extractComponentName (join (buildTargetDir cfg) fileName))
            = Some e"
    then have "st = run cwd cfg (watching md fs) acts" by blast
    then have inv: "lockInvariant st"
      by (simp only: invariant_run)
    from a have i: "i < length (inflight st)" and at: "inflight st ! i = (fileName, AwaitBuild)"
      and present: "map_of (metadata st) (extractComponentName (join (buildTargetDir cfg) fileName))
            = Some e"
      by blast+
    from i at have "(fileName, AwaitBuild) \<in> set (inflight st)"
      by (metis nth_mem)
    then have "fileName \<in> fst ` set (inflight st)"
      by (metis fst_conv image_eqI)
    with inv have h: "held st fileName"
      by (simp add: lockInvariant_def)
    with dropped[of NoEntry]
    have r: "run cwd cfg st [Event eventType (Some fileName) NoEntry bundleStat, BuildSettled i result]
          = onBuildSettled cwd cfg i result st"
      by (simp add: run_def)
    have e: "ended i st (onBuildSettled cwd cfg i result st)"
      and rm: "removals (onBuildSettled cwd cfg i result st) = removals st"
      and keep: "map_of (metadata (onBuildSettled cwd cfg i result st))
          (extractComponentName (join (buildTargetDir cfg) fileName)) = Some e"
      using i at present
      by (cases result; simp add: onBuildSettled_def Let_def ended_def truthy_componentName)+
    have rel: "released fileName (onBuildSettled cwd cfg i result st)"
      using inv e at by (rule ended_released)
    from h r keep rel rm
    show "held st fileName
      \<and> run cwd cfg st [Event eventType (Some fileName) NoEntry bundleStat, BuildSettled i result]
          = onBuildSettled cwd cfg i result st
      \<and> map_of (metadata (onBuildSettled cwd cfg i result st))
          (extractComponentName (join (buildTargetDir cfg) fileName)) = Some e
      \<and> released fileName (onBuildSettled cwd cfg i result st)
      \<and> removals (onBuildSettled cwd cfg i result st) = removals st"
      by (intro conjI)
  qed
  show "map_of (metadata st) k = Some e \<longrightarrow>
      map_of (metadata (onBuildSettled cwd cfg i result st)) k = Some e
      \<and> map_of (metadata (onIoSettled cfg i bundleStat st)) k = Some e"
    by (simp add: onBuildSettled_keeps_entries onIoSettled_metadata)
  show "fileName \<noteq> [] \<and> \<not> held st fileName \<and> endsWith fileName (buildTargetFileSuffix cfg)
        \<and> map_of (metadata st) (extractComponentName (join (buildTargetDir cfg) fileName))
            = Some e \<longrightarrow>
      map_of (metadata (onEvent cwd cfg eventType (Some fileName) NoEntry bundleStat st))
        (extractComponentName (join (buildTargetDir cfg) fileName)) = None"
    by (simp add: onEvent_def lock_held Let_def getProperty_def truthy_def delete_conv')
qed

theorem event_dropped_while_locked_witness:
  "held (run ''/home/dev/app'' demoConfig demoWatcher
           [Event Change (Some ''user/register.page.tsx'') IsFile NoEntry])
        ''user/register.page.tsx''
   \<and> inflight (run ''/home/dev/app'' demoConfig demoWatcher
           [Event Change (Some ''user/register.page.tsx'') IsFile NoEntry]) ! 0
       = (''user/register.page.tsx'', AwaitBuild)
   \<and> map_of (metadata (run ''/home/dev/app'' demoConfig demoWatcher
           [Event Change (Some ''user/register.page.tsx'') IsFile NoEntry]))
        (extractComponentName (join (buildTargetDir demoConfig) ''user/register.page.tsx''))
       = Some demoEntry
   \<and> run ''/home/dev/app'' demoConfig demoWatcher
        [Event Change (Some ''user/register.page.tsx'') IsFile NoEntry,
         Event Rename (Some ''user/register.page.tsx'') NoEntry IsFile]
       = run ''/home/dev/app'' demoConfig demoWatcher
           [Event Change (Some ''user/register.page.tsx'') IsFile NoEntry]
   \<and> map_of (metadata (run ''/home/dev/app'' demoConfig demoWatcher
        [Event Change (Some ''user/register.page.tsx'') IsFile NoEntry,
         Event Rename (Some ''user/register.page.tsx'') NoEntry IsFile,
         BuildSettled 0 Fulfilled])) ''RegisterPage'' = Some demoEntry
   \<and> released ''user/register.page.tsx'' (run ''/home/dev/app'' demoConfig demoWatcher
        [Event Change (Some ''user/register.page.tsx'') IsFile NoEntry,
         Event Rename (Some ''user/register.page.tsx'') NoEntry IsFile,
         BuildSettled 0 Fulfilled])
   \<and> map_of (metadata (run ''/home/dev/app'' demoConfig demoWatcher
        [Event Change (Some ''user/register.page.tsx'') IsFile NoEntry,
         Event Rename (Some ''user/register.page.tsx'') NoEntry IsFile,
         BuildSettled 0 Rejected])) ''RegisterPage'' = Some demoEntry
   \<and> released ''user/register.page.tsx'' (run ''/home/dev/app'' demoConfig demoWatcher
        [Event Change (Some ''user/register.page.tsx'') IsFile NoEntry,
         Event Rename (Some ''user/register.page.tsx'') NoEntry IsFile,
         BuildSettled 0 Rejected])
   \<and> ''user/register.page.tsx'' \<noteq> [] \<and> \<not> held demoWatcher ''user/register.page.tsx''
   \<and> endsWith ''user/register.page.tsx'' (buildTargetFileSuffix demoConfig)
   \<and> map_of (metadata demoWatcher)
        (extractComponentName (join (buildTargetDir demoConfig) ''user/register.page.tsx''))
       = Some demoEntry
   \<and> map_of (metadata (run ''/home/dev/app'' demoConfig demoWatcher
                 [Event Rename (Some ''user/register.page.tsx'') NoEntry IsFile]))
        ''RegisterPage'' = None"
proof -
  let ?f = "''user/register.page.tsx''"
  let ?st1 = "run ''/home/dev/app'' demoConfig demoWatcher [Event Change (Some ?f) IsFile NoEntry]"
  have name: "extractComponentName (join (buildTargetDir demoConfig) ?f) = ''RegisterPage''"
    by (simp add: demoConfig_fields demo_values)
  have reach: "?st1 = run ''/home/dev/app'' demoConfig
                 (watching [(''RegisterPage'', demoEntry)] demoDisk)
                 [Event Change (Some ?f) IsFile NoEntry]"
    by (simp add: demoWatcher_def)
  have h1: "held ?st1 ?f"
    by (simp add: demo_eval)
  have h2: "0 < length (inflight ?st1)" "inflight ?st1 ! 0 = (?f, AwaitBuild)"
    by (simp_all add: demo_eval)
  have h3: "map_of (metadata ?st1) (extractComponentName (join (buildTargetDir demoConfig) ?f))
      = Some demoEntry"
    by (simp add: demo_eval)
  note t = event_dropped_while_locked
      [where st = ?st1 and fileName = ?f and cwd = "''/home/dev/app''" and cfg = demoConfig
         and eventType = Rename and stats = NoEntry and bundleStat = IsFile
         and md = "[(''RegisterPage'', demoEntry)]" and fs = demoDisk
         and acts = "[Event Change (Some ?f) IsFile NoEntry]" and i = 0 and e = demoEntry]
  from t h1
  have "onEvent ''/home/dev/app'' demoConfig Rename (Some ?f) NoEntry IsFile ?st1 = ?st1"
    by blast
  then have c1: "run ''/home/dev/app'' demoConfig demoWatcher
        [Event Change (Some ?f) IsFile NoEntry, Event Rename (Some ?f) NoEntry IsFile] = ?st1"
    by (simp add: run_def)
  have after: "run ''/home/dev/app'' demoConfig demoWatcher
        [Event Change (Some ?f) IsFile NoEntry, Event Rename (Some ?f) NoEntry IsFile,
         BuildSettled 0 result]
       = run ''/home/dev/app'' demoConfig ?st1
           [Event Rename (Some ?f) NoEntry IsFile, BuildSettled 0 result]" for result
    by (simp add: run_def)
  from t[where result = Fulfilled] reach h2 h3
  have "run ''/home/dev/app'' demoConfig ?st1
            [Event Rename (Some ?f) NoEntry IsFile, BuildSettled 0 Fulfilled]
          = onBuildSettled ''/home/dev/app'' demoConfig 0 Fulfilled ?st1
      \<and> map_of (metadata (onBuildSettled ''/home/dev/app'' demoConfig 0 Fulfilled ?st1))
          (extractComponentName (join (buildTargetDir demoConfig) ?f)) = Some demoEntry
      \<and> released ?f (onBuildSettled ''/home/dev/app'' demoConfig 0 Fulfilled ?st1)"
    by blast
  then have c2: "map_of (metadata (run ''/home/dev/app'' demoConfig demoWatcher
        [Event Change (Some ?f) IsFile NoEntry, Event Rename (Some ?f) NoEntry IsFile,
         BuildSettled 0 Fulfilled])) ''RegisterPage'' = Some demoEntry"
    and c3: "released ?f (run ''/home/dev/app'' demoConfig demoWatcher
        [Event Change (Some ?f) IsFile NoEntry, Event Rename (Some ?f) NoEntry IsFile,
         BuildSettled 0 Fulfilled])"
    by (simp_all only: after name)
  from t[where result = Rejected] reach h2 h3
  have "run ''/home/dev/app'' demoConfig ?st1
            [Event Rename (Some ?f) NoEntry IsFile, BuildSettled 0 Rejected]
          = onBuildSettled ''/home/dev/app'' demoConfig 0 Rejected ?st1
      \<and> map_of (metadata (onBuildSettled ''/home/dev/app'' demoConfig 0 Rejected ?st1))
          (extractComponentName (join (buildTargetDir demoConfig) ?f)) = Some demoEntry
      \<and> released ?f (onBuildSettled ''/home/dev/app'' demoConfig 0 Rejected ?st1)"
    by blast
  then have c4: "map_of (metadata (run ''/home/dev/app'' demoConfig demoWatcher
        [Event Change (Some ?f) IsFile NoEntry, Event Rename (Some ?f) NoEntry IsFile,
         BuildSettled 0 Rejected])) ''RegisterPage'' = Some demoEntry"
    and c5: "released ?f (run ''/home/dev/app'' demoConfig demoWatcher
        [Event Change (Some ?f) IsFile NoEntry, Event Rename (Some ?f) NoEntry IsFile,
         BuildSettled 0 Rejected])"
    by (simp_all only: after name)
  have h4: "?f \<noteq> [] \<and> \<not> held demoWatcher ?f
      \<and> endsWith ?f (buildTargetFileSuffix demoConfig)
      \<and> map_of (metadata demoWatcher) (extractComponentName (join (buildTargetDir demoConfig) ?f))
         = Some demoEntry"
    by (simp add: demo_eval)
  from event_dropped_while_locked
         [where st = demoWatcher and fileName = ?f
            and cwd = "''/home/dev/app''" and cfg = demoConfig and eventType = Rename
            and bundleStat = IsFile and e = demoEntry]
       h4
  have "map_of (metadata (onEvent ''/home/dev/app'' demoConfig Rename (Some ?f) NoEntry IsFile
                            demoWatcher))
          (extractComponentName (join (buildTargetDir demoConfig) ?f)) = None"
    by blast
  then have c6: "map_of (metadata (run ''/home/dev/app'' demoConfig demoWatcher
                 [Event Rename (Some ?f) NoEntry IsFile])) ''RegisterPage'' = None"
    by (simp add: run_def name)
  from h1 h2(2) h3 c1 c2 c3 c4 c5 h4 c6 show ?thesis by (intro conjI) simp_all
qed

text \<open>
  C2 as stated fails in its second half. The page is registered; a change event starts its
  rebuild and takes the lock; the file is deleted and the deletion event arrives while the
  lock is held; the build settles (it may succeed or fail). In the end no handler is in
  flight, the lock is free, no removal of the bundle was requested, and the registry still
  has the entry: the deletion event is lost.
\<close>

theorem deletion_while_locked_lost_counterexample:
  "inflight (run ''/home/dev/app'' demoConfig demoWatcher
      [Event Change (Some ''user/register.page.tsx'') IsFile NoEntry,
       Event Rename (Some ''user/register.page.tsx'') NoEntry IsFile,
       BuildSettled 0 Fulfilled]) = []
   \<and> \<not> held (run ''/home/dev/app'' demoConfig demoWatcher
      [Event Change (Some ''user/register.page.tsx'') IsFile NoEntry,
       Event Rename (Some ''user/register.page.tsx'') NoEntry IsFile,
       BuildSettled 0 Fulfilled]) ''user/register.page.tsx''
   \<and> removals (run ''/home/dev/app'' demoConfig demoWatcher
      [Event Change (Some ''user/register.page.tsx'') IsFile NoEntry,
       Event Rename (Some ''user/register.page.tsx'') NoEntry IsFile,
       BuildSettled 0 Fulfilled]) = []
   \<and> map_of (metadata (run ''/home/dev/app'' demoConfig demoWatcher
      [Event Change (Some ''user/register.page.tsx'') IsFile NoEntry,
       Event Rename (Some ''user/register.page.tsx'') NoEntry IsFile,
       BuildSettled 0 Fulfilled])) ''RegisterPage'' = Some demoEntry
   \<and> inflight (run ''/home/dev/app'' demoConfig demoWatcher
      [Event Change (Some ''user/register.page.tsx'') IsFile NoEntry,
       Event Rename (Some ''user/register.page.tsx'') NoEntry IsFile,
       BuildSettled 0 Rejected]) = []
   \<and> map_of (metadata (run ''/home/dev/app'' demoConfig demoWatcher
      [Event Change (Some ''user/register.page.tsx'') IsFile NoEntry,
       Event Rename (Some ''user/register.page.tsx'') NoEntry IsFile,
       BuildSettled 0 Rejected])) ''RegisterPage'' = Some demoEntry"
  by (simp add: demo_eval)

text \<open>
  The entry of a component can be removed while the lock of a file of that component is
  held: by the deletion of another file with the same component name.
\<close>

lemma same_component_deleted_while_locked:
  "held (run ''/home/dev/app'' demoConfig demoWatcher
           [Event Change (Some ''user/register.page.tsx'') IsFile NoEntry,
            Event Rename (Some ''video/register.page.tsx'') NoEntry NoEntry])
        ''user/register.page.tsx''
   \<and> map_of (metadata (run ''/home/dev/app'' demoConfig demoWatcher
           [Event Change (Some ''user/register.page.tsx'') IsFile NoEntry,
            Event Rename (Some ''video/register.page.tsx'') NoEntry NoEntry]))
        ''RegisterPage'' = None"
proof -
  have v: "join ''src/pages'' ''video/register.page.tsx'' = ''src/pages/video/register.page.tsx''"
    by (simp add: join_def normalize_path_def isSep_def)
  have n: "extractComponentName ''src/pages/video/register.page.tsx'' = ''RegisterPage''"
    by (simp add: naming_eval)
  have e: "endsWith ''video/register.page.tsx'' ''page.tsx''"
    by (simp add: endsWith_def suffix_to_prefix)
  show ?thesis by (simp add: demo_eval v n e)
qed

subsection \<open>C8: the lock is released on every way out\<close>

text \<open>
  C8. In every state that the watcher reaches from the start of the watch, whatever the
  events and however the awaited promises settle: no file name has two handlers in flight
  (so at most one build of a file is in flight); the lock of a file name is held exactly
  while a handler for it is in flight; and a file name without a handler in flight can take
  the lock. Every way out of a handler releases the lock, so that the next event for the
  file takes it:
  \<^item> a handler that ends before its first \<^verbatim>\<open>await\<close>, because the stat of the path throws,
    the path is a directory, the name does not end in the suffix, or the path is gone and
    its component is not registered;
  \<^item> the bundler rejects the build;
  \<^item> the build succeeds and the component is registered (when it is not, the handler keeps
    the lock and goes on to \<^verbatim>\<open>generateMetadataFile\<close>);
  \<^item> the \<^verbatim>\<open>mkdir\<close> of \<^verbatim>\<open>generateMetadataFile\<close> fails (when it succeeds, the handler keeps
    the lock and goes on to write);
  \<^item> the \<^verbatim>\<open>writeFile\<close> of \<^verbatim>\<open>generateMetadataFile\<close> has settled, failed or not, in the
    build branch and in the deletion branch, whatever the removal of the bundle does.
\<close>

theorem lock_released_on_every_exit:
  assumes "st = run cwd cfg (watching md fs) acts"
  shows "distinct (map fst (inflight st))
     \<and> (\<forall>f. held st f = (f \<in> fst ` set (inflight st)))
     \<and> (\<forall>f. f \<notin> fst ` set (inflight st) \<longrightarrow> fst (lock f (lockMap st)))
     \<and> (\<forall>eventType f stats bundleStat.
          f \<noteq> [] \<and> f \<notin> fst ` set (inflight st)
          \<and> (stats = StatThrows \<or> stats = IsDirectory
              \<or> \<not> endsWith f (buildTargetFileSuffix cfg)
              \<or> (stats = NoEntry
                  \<and> map_of (metadata st) (extractComponentName (join (buildTargetDir cfg) f))
                      = None)) \<longrightarrow>
          released f (onEvent cwd cfg eventType (Some f) stats bundleStat st))
     \<and> (\<forall>i f. i < length (inflight st) \<and> inflight st ! i = (f, AwaitBuild) \<longrightarrow>
          released f (onBuildSettled cwd cfg i Rejected st)
          \<and> (if map_of (metadata st) (extractComponentName (join (buildTargetDir cfg) f)) = None
             then inflight (onBuildSettled cwd cfg i Fulfilled st)
                    = (inflight st)[i := (f, AwaitMkdir False)]
                  \<and> held (onBuildSettled cwd cfg i Fulfilled st) f
             else released f (onBuildSettled cwd cfg i Fulfilled st)))
     \<and> (\<forall>i f removal bundleStat.
          i < length (inflight st) \<and> inflight st ! i = (f, AwaitMkdir removal) \<longrightarrow>
          (if dirname (metadataPath cfg) \<in> set (blocked (disk st))
           then released f (onIoSettled cfg i bundleStat st)
           else inflight (onIoSettled cfg i bundleStat st)
                  = (inflight st)[i := (f, AwaitWrite removal (JSON_stringify (metadata st)))]
                \<and> held (onIoSettled cfg i bundleStat st) f))
     \<and> (\<forall>i f removal content bundleStat.
          i < length (inflight st) \<and> inflight st ! i = (f, AwaitWrite removal content) \<longrightarrow>
          released f (onIoSettled cfg i bundleStat st))"
proof -
  have inv: "lockInvariant st"
    unfolding assms by (rule invariant_run)
  then have d: "distinct (map fst (inflight st))"
    and h: "\<And>f. held st f = (f \<in> fst ` set (inflight st))"
    by (simp_all add: lockInvariant_def)
  have inflight_held: "held st f" if "i < length (inflight st)" "inflight st ! i = (f, k)" for i f k
  proof -
    from that have "(f, k) \<in> set (inflight st)" by (metis nth_mem)
    then have "f \<in> fst ` set (inflight st)" by (metis fst_conv image_eqI)
    then show ?thesis by (simp add: h)
  qed
  have free: "fst (lock f (lockMap st))" if "f \<notin> fst ` set (inflight st)" for f
    using that h[of f] by (simp add: lock_held)
  have no_await: "released f (onEvent cwd cfg eventType (Some f) stats bundleStat st)"
    if a: "f \<noteq> [] \<and> f \<notin> fst ` set (inflight st)
          \<and> (stats = StatThrows \<or> stats = IsDirectory
              \<or> \<not> endsWith f (buildTargetFileSuffix cfg)
              \<or> (stats = NoEntry
                  \<and> map_of (metadata st) (extractComponentName (join (buildTargetDir cfg) f))
                      = None))"
    for eventType f stats bundleStat
  proof -
    let ?st1 = "st\<lparr>lockMap := AList.update f True (lockMap st)\<rparr>"
    from a have free: "\<not> held st f" and notin: "f \<notin> fst ` set (inflight st)"
      by (simp_all add: h)
    have h1: "held ?st1 g = (g = f \<or> held st g)" for g
      by (simp add: held_lockMap_update)
    have "inflight (onEvent cwd cfg eventType (Some f) stats bundleStat st) = inflight st
        \<and> \<not> held (onEvent cwd cfg eventType (Some f) stats bundleStat st) f"
      using a free
      by (cases stats)
         (auto simp: onEvent_def Let_def lock_held lock_acquired isBuild_def
                     truthy_componentName h1)
    with notin show ?thesis
      by (simp add: released_def lock_held)
  qed
  have build: "released f (onBuildSettled cwd cfg i Rejected st)
          \<and> (if map_of (metadata st) (extractComponentName (join (buildTargetDir cfg) f)) = None
             then inflight (onBuildSettled cwd cfg i Fulfilled st)
                    = (inflight st)[i := (f, AwaitMkdir False)]
                  \<and> held (onBuildSettled cwd cfg i Fulfilled st) f
             else released f (onBuildSettled cwd cfg i Fulfilled st))"
    if a: "i < length (inflight st) \<and> inflight st ! i = (f, AwaitBuild)" for i f
  proof -
    from a have i: "i < length (inflight st)" and at: "inflight st ! i = (f, AwaitBuild)"
      by blast+
    have "ended i st (onBuildSettled cwd cfg i Rejected st)"
      using i at by (simp add: onBuildSettled_def Let_def ended_def)
    with inv have r: "released f (onBuildSettled cwd cfg i Rejected st)"
      using at by (rule ended_released)
    show ?thesis
    proof (cases "map_of (metadata st) (extractComponentName (join (buildTargetDir cfg) f))")
      case None
      have "inflight (onBuildSettled cwd cfg i Fulfilled st) = (inflight st)[i := (f, AwaitMkdir False)]"
        and "held (onBuildSettled cwd cfg i Fulfilled st) f = held st f"
        using i at None by (simp_all add: onBuildSettled_def Let_def truthy_componentName)
      with inflight_held[OF i at] r None
      show ?thesis by simp
    next
      case (Some e)
      have "ended i st (onBuildSettled cwd cfg i Fulfilled st)"
        using i at Some by (simp add: onBuildSettled_def Let_def ended_def truthy_componentName)
      with inv have "released f (onBuildSettled cwd cfg i Fulfilled st)"
        using at by (rule ended_released)
      with r Some show ?thesis by simp
    qed
  qed
  have made: "if dirname (metadataPath cfg) \<in> set (blocked (disk st))
           then released f (onIoSettled cfg i bundleStat st)
           else inflight (onIoSettled cfg i bundleStat st)
                  = (inflight st)[i := (f, AwaitWrite removal (JSON_stringify (metadata st)))]
                \<and> held (onIoSettled cfg i bundleStat st) f"
    if a: "i < length (inflight st) \<and> inflight st ! i = (f, AwaitMkdir removal)"
    for i f removal bundleStat
  proof -
    from a have i: "i < length (inflight st)" and at: "inflight st ! i = (f, AwaitMkdir removal)"
      by blast+
    show ?thesis
    proof (cases "dirname (metadataPath cfg) \<in> set (blocked (disk st))")
      case True
      have "ended i st (onIoSettled cfg i bundleStat st)"
        using i at True by (simp add: onIoSettled_def Let_def mkdir_def ended_def)
      with inv have "released f (onIoSettled cfg i bundleStat st)"
        using at by (rule ended_released)
      with True show ?thesis by simp
    next
      case False
      have "inflight (onIoSettled cfg i bundleStat st)
              = (inflight st)[i := (f, AwaitWrite removal (JSON_stringify (metadata st)))]"
        and "held (onIoSettled cfg i bundleStat st) f = held st f"
        using i at False by (simp_all add: onIoSettled_def Let_def mkdir_def)
      with inflight_held[OF i at] False
      show ?thesis by simp
    qed
  qed
  have written: "released f (onIoSettled cfg i bundleStat st)"
    if a: "i < length (inflight st) \<and> inflight st ! i = (f, AwaitWrite removal content)"
    for i f removal content bundleStat
  proof -
    from a have i: "i < length (inflight st)"
      and at: "inflight st ! i = (f, AwaitWrite removal content)"
      by blast+
    have "ended i st (onIoSettled cfg i bundleStat st)"
      using i at by (simp add: onIoSettled_def Let_def ended_def split: sum.splits)
    with inv show ?thesis
      using at by (rule ended_released)
  qed
  from d h free no_await build made written show ?thesis by blast
qed

theorem lock_released_on_every_exit_witness:
  "inflight (run ''/home/dev/app'' demoConfig (watching [] demoDisk)
              [Event Change (Some ''user/register.page.tsx'') IsFile NoEntry]) ! 0
     = (''user/register.page.tsx'', AwaitBuild)
   \<and> held (run ''/home/dev/app'' demoConfig (watching [] demoDisk)
              [Event Change (Some ''user/register.page.tsx'') IsFile NoEntry])
        ''user/register.page.tsx''
   \<and> fst (lock ''about.page.tsx''
        (lockMap (run ''/home/dev/app'' demoConfig (watching [] demoDisk)
              [Event Change (Some ''user/register.page.tsx'') IsFile NoEntry])))
   \<and> released ''about.page.tsx''
        (run ''/home/dev/app'' demoConfig (watching [] demoDisk)
           [Event Change (Some ''user/register.page.tsx'') IsFile NoEntry,
            Event Change (Some ''about.page.tsx'') StatThrows NoEntry])
   \<and> released ''user/register.page.tsx''
        (run ''/home/dev/app'' demoConfig (watching [] demoDisk)
           [Event Change (Some ''user/register.page.tsx'') IsFile NoEntry,
            BuildSettled 0 Rejected])
   \<and> inflight (run ''/home/dev/app'' demoConfig (watching [] demoDisk)
                 [Event Change (Some ''user/register.page.tsx'') IsFile NoEntry,
                  BuildSettled 0 Fulfilled])
       = [(''user/register.page.tsx'', AwaitMkdir False)]
   \<and> inflight (run ''/home/dev/app'' demoConfig (watching [] demoDisk)
                 [Event Change (Some ''user/register.page.tsx'') IsFile NoEntry,
                  BuildSettled 0 Fulfilled, IoSettled 0 NoEntry])
       = [(''user/register.page.tsx'',
           AwaitWrite False (JSON_stringify [(''RegisterPage'', demoEntry)]))]
   \<and> released ''user/register.page.tsx''
        (run ''/home/dev/app'' demoConfig (watching [] demoDisk)
           [Event Change (Some ''user/register.page.tsx'') IsFile NoEntry,
            BuildSettled 0 Fulfilled, IoSettled 0 NoEntry, IoSettled 0 NoEntry])
   \<and> released ''user/register.page.tsx''
        (run ''/home/dev/app'' demoConfig demoWatcher
           [Event Change (Some ''user/register.page.tsx'') IsFile NoEntry,
            BuildSettled 0 Fulfilled])"
proof -
  let ?f = "''user/register.page.tsx''"
  let ?cwd = "''/home/dev/app''"
  let ?e = "Event Change (Some ?f) IsFile NoEntry"
  let ?st1 = "run ?cwd demoConfig (watching [] demoDisk) [?e]"
  let ?st2 = "run ?cwd demoConfig (watching [] demoDisk) [?e, BuildSettled 0 Fulfilled]"
  let ?st3 = "run ?cwd demoConfig (watching [] demoDisk)
                [?e, BuildSettled 0 Fulfilled, IoSettled 0 NoEntry]"
  let ?st1' = "run ?cwd demoConfig (watching [(''RegisterPage'', demoEntry)] demoDisk) [?e]"
  have name: "extractComponentName (join (buildTargetDir demoConfig) ?f) = ''RegisterPage''"
    by (simp add: demoConfig_fields demo_values)
  have dir: "dirname (metadataPath demoConfig) = ''build''"
    by (simp add: demoConfig_fields dirname_def isSep_def Let_def)
  have fl1: "inflight ?st1 = [(?f, AwaitBuild)]" and md1: "metadata ?st1 = []"
    by (simp_all add: demo_eval)
  have step2: "?st2 = onBuildSettled ?cwd demoConfig 0 Fulfilled ?st1"
    and step2r: "run ?cwd demoConfig (watching [] demoDisk) [?e, BuildSettled 0 Rejected]
                   = onBuildSettled ?cwd demoConfig 0 Rejected ?st1"
    and step3: "?st3 = onIoSettled demoConfig 0 NoEntry ?st2"
    and step4: "run ?cwd demoConfig (watching [] demoDisk)
                  [?e, BuildSettled 0 Fulfilled, IoSettled 0 NoEntry, IoSettled 0 NoEntry]
                = onIoSettled demoConfig 0 NoEntry ?st3"
    and step5: "run ?cwd demoConfig (watching [] demoDisk)
                  [?e, Event Change (Some ''about.page.tsx'') StatThrows NoEntry]
                = onEvent ?cwd demoConfig Change (Some ''about.page.tsx'') StatThrows NoEntry ?st1"
    and step2': "run ?cwd demoConfig demoWatcher [?e, BuildSettled 0 Fulfilled]
                   = onBuildSettled ?cwd demoConfig 0 Fulfilled ?st1'"
    by (simp_all add: run_def demoWatcher_def)
  note t1 = lock_released_on_every_exit
      [where st = ?st1 and cwd = ?cwd and cfg = demoConfig and md = "[]" and fs = demoDisk
         and acts = "[?e]", OF refl]
  from t1 have h: "held ?st1 ?f = (?f \<in> fst ` set (inflight ?st1))" by blast
  have c1: "inflight ?st1 ! 0 = (?f, AwaitBuild)"
    by (simp add: fl1)
  have c2: "held ?st1 ?f"
    unfolding h by (simp add: fl1)
  have "''about.page.tsx'' \<notin> fst ` set (inflight ?st1)"
    by (simp add: fl1)
  with t1 have c3: "fst (lock ''about.page.tsx'' (lockMap ?st1))"
    by blast
  have "''about.page.tsx'' \<noteq> [] \<and> ''about.page.tsx'' \<notin> fst ` set (inflight ?st1)
      \<and> (StatThrows = StatThrows \<or> StatThrows = IsDirectory
          \<or> \<not> endsWith ''about.page.tsx'' (buildTargetFileSuffix demoConfig)
          \<or> (StatThrows = NoEntry
              \<and> map_of (metadata ?st1)
                  (extractComponentName (join (buildTargetDir demoConfig) ''about.page.tsx''))
                  = None))"
    by (simp add: fl1)
  with t1 have c4: "released ''about.page.tsx''
      (onEvent ?cwd demoConfig Change (Some ''about.page.tsx'') StatThrows NoEntry ?st1)"
    by blast
  have at1: "0 < length (inflight ?st1) \<and> inflight ?st1 ! 0 = (?f, AwaitBuild)"
    by (simp add: fl1)
  with t1 have b: "released ?f (onBuildSettled ?cwd demoConfig 0 Rejected ?st1)
      \<and> (if map_of (metadata ?st1) (extractComponentName (join (buildTargetDir demoConfig) ?f)) = None
         then inflight (onBuildSettled ?cwd demoConfig 0 Fulfilled ?st1)
                = (inflight ?st1)[0 := (?f, AwaitMkdir False)]
              \<and> held (onBuildSettled ?cwd demoConfig 0 Fulfilled ?st1) ?f
         else released ?f (onBuildSettled ?cwd demoConfig 0 Fulfilled ?st1))"
    by blast
  then have c5: "released ?f (onBuildSettled ?cwd demoConfig 0 Rejected ?st1)"
    and fl2: "inflight ?st2 = [(?f, AwaitMkdir False)]"
    by (simp_all add: md1 fl1 step2)
  have md2: "metadata ?st2 = [(''RegisterPage'', demoEntry)]" and disk2: "disk ?st2 = demoDisk"
    by (simp_all add: demo_eval)
  have bl2: "blocked (disk ?st2) = []"
    by (simp add: disk2) (simp add: demoDisk_def)
  note t2 = lock_released_on_every_exit
      [where st = ?st2 and cwd = ?cwd and cfg = demoConfig and md = "[]" and fs = demoDisk
         and acts = "[?e, BuildSettled 0 Fulfilled]", OF refl]
  have "0 < length (inflight ?st2) \<and> inflight ?st2 ! 0 = (?f, AwaitMkdir False)"
    by (simp add: fl2)
  with t2
  have "if dirname (metadataPath demoConfig) \<in> set (blocked (disk ?st2))
        then released ?f (onIoSettled demoConfig 0 NoEntry ?st2)
        else inflight (onIoSettled demoConfig 0 NoEntry ?st2)
               = (inflight ?st2)[0 := (?f, AwaitWrite False (JSON_stringify (metadata ?st2)))]
             \<and> held (onIoSettled demoConfig 0 NoEntry ?st2) ?f"
    by blast
  then have fl3: "inflight ?st3
      = [(?f, AwaitWrite False (JSON_stringify [(''RegisterPage'', demoEntry)]))]"
    by (simp add: dir bl2 md2 fl2 step3)
  note t3 = lock_released_on_every_exit
      [where st = ?st3 and cwd = ?cwd and cfg = demoConfig and md = "[]" and fs = demoDisk
         and acts = "[?e, BuildSettled 0 Fulfilled, IoSettled 0 NoEntry]", OF refl]
  have "0 < length (inflight ?st3)
      \<and> inflight ?st3 ! 0 = (?f, AwaitWrite False (JSON_stringify [(''RegisterPage'', demoEntry)]))"
    by (simp add: fl3)
  with t3 have c6: "released ?f (onIoSettled demoConfig 0 NoEntry ?st3)"
    by blast
  have fl1': "inflight ?st1' = [(?f, AwaitBuild)]"
    and md1': "metadata ?st1' = [(''RegisterPage'', demoEntry)]"
    by (simp_all add: demo_eval)
  note t4 = lock_released_on_every_exit
      [where st = ?st1' and cwd = ?cwd and cfg = demoConfig
         and md = "[(''RegisterPage'', demoEntry)]" and fs = demoDisk and acts = "[?e]", OF refl]
  have "0 < length (inflight ?st1') \<and> inflight ?st1' ! 0 = (?f, AwaitBuild)"
    by (simp add: fl1')
  with t4
  have "if map_of (metadata ?st1') (extractComponentName (join (buildTargetDir demoConfig) ?f)) = None
        then inflight (onBuildSettled ?cwd demoConfig 0 Fulfilled ?st1')
               = (inflight ?st1')[0 := (?f, AwaitMkdir False)]
             \<and> held (onBuildSettled ?cwd demoConfig 0 Fulfilled ?st1') ?f
        else released ?f (onBuildSettled ?cwd demoConfig 0 Fulfilled ?st1')"
    by blast
  then have c7: "released ?f (onBuildSettled ?cwd demoConfig 0 Fulfilled ?st1')"
    by (simp add: md1' name)
  from c1 c2 c3 c4 c5 fl2 fl3 c6 c7 show ?thesis
    unfolding step2r step4 step5 step2' by (intro conjI)
qed

end
